theory Spec2Isabelle
  imports Complex_Main
begin

section \<open>Beta-Geometric customer churn estimation\<close>

text \<open>
  The development embeds the functions of the two notebooks
  \<^verbatim>\<open>Customer Churn Estimation.ipynb\<close> (the base notebook) and
  \<^verbatim>\<open>Customer Churn Estimation with Loyalty and Novelty Effects.ipynb\<close> (the loyalty
  notebook): \<^verbatim>\<open>FormatBGData\<close>, \<^verbatim>\<open>NLogL\<close>, \<^verbatim>\<open>NLogL_Alpha\<close>, the fitting functions
  and the two versions of \<^verbatim>\<open>ExtrapolateBG\<close>.
\<close>

subsection \<open>numpy floats\<close>

text \<open>
  A numpy float is a finite number, one of the two infinities, or NaN. Finite arithmetic
  is exact here: rounding, overflow, underflow and the sign of zero are not modelled.
  What is modelled is where the special values arise and how they propagate, which is
  what numpy does instead of raising: \<^verbatim>\<open>np.log(0) = -inf\<close>, \<^verbatim>\<open>np.log(x) = nan\<close> for
  negative \<open>x\<close>, \<^verbatim>\<open>x / 0 = inf\<close>, \<^verbatim>\<open>0 * inf = nan\<close>, \<^verbatim>\<open>inf - inf = nan\<close>.
\<close>

datatype npfloat = Fin real | PInf | NInf | NaN

fun np_neg :: "npfloat \<Rightarrow> npfloat" where
  "np_neg (Fin x) = Fin (- x)"
| "np_neg PInf = NInf"
| "np_neg NInf = PInf"
| "np_neg NaN = NaN"

fun np_add :: "npfloat \<Rightarrow> npfloat \<Rightarrow> npfloat" where
  "np_add NaN _ = NaN"
| "np_add _ NaN = NaN"
| "np_add (Fin x) (Fin y) = Fin (x + y)"
| "np_add PInf NInf = NaN"
| "np_add NInf PInf = NaN"
| "np_add PInf _ = PInf"
| "np_add _ PInf = PInf"
| "np_add NInf _ = NInf"
| "np_add _ NInf = NInf"

definition np_sub :: "npfloat \<Rightarrow> npfloat \<Rightarrow> npfloat" where
  "np_sub a b = np_add a (np_neg b)"

text \<open>The sign of a product or quotient with an infinite operand.\<close>

definition signed_inf :: "real \<Rightarrow> npfloat" where
  "signed_inf s = (if 0 < s then PInf else if s < 0 then NInf else NaN)"

fun np_mul :: "npfloat \<Rightarrow> npfloat \<Rightarrow> npfloat" where
  "np_mul NaN _ = NaN"
| "np_mul _ NaN = NaN"
| "np_mul (Fin x) (Fin y) = Fin (x * y)"
| "np_mul (Fin x) PInf = signed_inf x"
| "np_mul (Fin x) NInf = signed_inf (- x)"
| "np_mul PInf (Fin y) = signed_inf y"
| "np_mul NInf (Fin y) = signed_inf (- y)"
| "np_mul PInf PInf = PInf"
| "np_mul PInf NInf = NInf"
| "np_mul NInf PInf = NInf"
| "np_mul NInf NInf = PInf"

text \<open>
  Division of numpy floats never raises: a non-zero number divided by zero is an
  infinity, \<open>0 / 0\<close> and \<open>inf / inf\<close> are NaN. (An infinity divided by zero takes the sign
  of the infinity, as for the zero \<open>+0.0\<close>.)
\<close>

fun np_div :: "npfloat \<Rightarrow> npfloat \<Rightarrow> npfloat" where
  "np_div NaN _ = NaN"
| "np_div _ NaN = NaN"
| "np_div (Fin x) (Fin y) = (if y = 0 then signed_inf x else Fin (x / y))"
| "np_div (Fin x) PInf = Fin 0"
| "np_div (Fin x) NInf = Fin 0"
| "np_div PInf (Fin y) = (if 0 \<le> y then PInf else NInf)"
| "np_div NInf (Fin y) = (if 0 \<le> y then NInf else PInf)"
| "np_div PInf PInf = NaN"
| "np_div PInf NInf = NaN"
| "np_div NInf PInf = NaN"
| "np_div NInf NInf = NaN"

fun np_log :: "npfloat \<Rightarrow> npfloat" where
  "np_log (Fin x) = (if 0 < x then Fin (ln x) else if x = 0 then NInf else NaN)"
| "np_log PInf = PInf"
| "np_log NInf = NaN"
| "np_log NaN = NaN"

text \<open>Comparison of numpy floats: every comparison with NaN is false.\<close>

fun np_le :: "npfloat \<Rightarrow> npfloat \<Rightarrow> bool" where
  "np_le NaN _ = False"
| "np_le _ NaN = False"
| "np_le (Fin x) (Fin y) = (x \<le> y)"
| "np_le NInf _ = True"
| "np_le _ PInf = True"
| "np_le PInf _ = False"
| "np_le _ NInf = False"

text \<open>Python's builtin \<^verbatim>\<open>sum\<close>: a left fold of \<open>+\<close> from \<open>0\<close>.\<close>

definition py_sum :: "npfloat list \<Rightarrow> npfloat" where
  "py_sum xs = foldl np_add (Fin 0) xs"

text \<open>\<^verbatim>\<open>cumsum\<close> of a column of finite numbers: the running sums.\<close>

fun cumsum_from :: "real \<Rightarrow> real list \<Rightarrow> real list" where
  "cumsum_from acc [] = []"
| "cumsum_from acc (x # xs) = (acc + x) # cumsum_from (acc + x) xs"

definition cumsum :: "real list \<Rightarrow> real list" where
  "cumsum xs = cumsum_from 0 xs"

text \<open>
  \<^verbatim>\<open>Series.cumsum\<close> of pandas on a float column skips NaN (\<^verbatim>\<open>skipna=True\<close>): a NaN
  entry stays NaN in the result and does not enter the running sum.
\<close>

fun pd_cumsum_from :: "npfloat \<Rightarrow> npfloat list \<Rightarrow> npfloat list" where
  "pd_cumsum_from acc [] = []"
| "pd_cumsum_from acc (x # xs) =
     (if x = NaN then NaN # pd_cumsum_from acc xs
      else np_add acc x # pd_cumsum_from (np_add acc x) xs)"

definition pd_cumsum :: "npfloat list \<Rightarrow> npfloat list" where
  "pd_cumsum xs = pd_cumsum_from (Fin 0) xs"

subsection \<open>The survival table: \<^verbatim>\<open>FormatBGData\<close>\<close>

text \<open>
  One row of the dataframe that \<^verbatim>\<open>FormatBGData\<close> returns. The index label of a row
  equals its \<open>Period\<close> (both are \<^verbatim>\<open>np.arange(len(Data))\<close>), so the label is not kept
  apart. The raw input is a list of finite numbers.
\<close>

record row =
  Remaining :: real
  Cust_Lost :: real
  Period :: int
  Final_Period :: int

text \<open>\<^verbatim>\<open>Data.diff()\<close>: the first entry is missing (NaN), written \<open>None\<close>.\<close>

fun diff :: "real list \<Rightarrow> real option list" where
  "diff [] = []"
| "diff (x # xs) = None # map (\<lambda>(a, b). Some (b - a)) (zip (x # xs) xs)"

definition fillna :: "real \<Rightarrow> real option list \<Rightarrow> real list" where
  "fillna v xs = map (\<lambda>x. case x of None \<Rightarrow> v | Some y \<Rightarrow> y) xs"

text \<open>
  \<^verbatim>\<open>
  def FormatBGData(RawRemaining):
      Data = pd.DataFrame(RawRemaining, columns=['Remaining'])
      Data['Cust_Lost'] = pd.DataFrame(-1*Data.diff().fillna(0))
      Data['Period'] = np.arange(len(Data))
      Data['Final_Period']=0
      Data.ix[len(Data)-1,'Final_Period']=1
      Data = Data[Data.Period != 0]
      return Data
  \<close>
  The function checks nothing and has no error branch. On the empty list the assignment
  \<^verbatim>\<open>Data.ix[-1, 'Final_Period'] = 1\<close> addresses a row that does not exist; what pandas
  does then is not modelled, and no statement below is about the empty input.
\<close>

definition FormatBGData :: "real list \<Rightarrow> row list" where
  "FormatBGData RawRemaining =
     (let n = length RawRemaining;
          lost = map (\<lambda>d. - 1 * d) (fillna 0 (diff RawRemaining));
          Data = map (\<lambda>i. \<lparr> Remaining = RawRemaining ! i, Cust_Lost = lost ! i,
                            Period = int i,
                            Final_Period = (if i = n - 1 then 1 else 0) \<rparr>) [0..<n]
      in filter (\<lambda>r. Period r \<noteq> 0) Data)"

text \<open>
  The notebooks read the size of the initial cohort back from the row labelled \<open>1\<close>:
  \<^verbatim>\<open>Initial_Pop = Data.ix[1,'Remaining'] + Data.ix[1,'Cust_Lost']\<close>.
  A table without that row makes the lookup raise \<^verbatim>\<open>KeyError\<close>.
\<close>

datatype py_error = KeyError

definition usage_Initial_Pop :: "row list \<Rightarrow> py_error + real" where
  "usage_Initial_Pop Data =
     (case find (\<lambda>r. Period r = 1) Data of
        None \<Rightarrow> Inl KeyError
      | Some r \<Rightarrow> Inr (Remaining r + Cust_Lost r))"

subsection \<open>The likelihood functions\<close>

text \<open>
  \<^verbatim>\<open>scipy.special.beta\<close> is a library function outside the repository: every function
  that calls it takes it as the parameter \<open>beta\<close>. It returns a numpy float (an infinity
  at a pole).

  \<^verbatim>\<open>
  def NLogL(Params, Data):
      (Gamma, Delta) = Params
      LogLikelihood = Data['Cust_Lost'] * np.log(special.beta(Gamma + 1, Delta + Data['Period'] - 1) / special.beta(Gamma, Delta))
      LogLikelihood += (Data['Final_Period'] * (Data['Remaining'] * np.log(special.beta(Gamma, Delta + Data['Period']) / special.beta(Gamma, Delta))))
      return -sum(LogLikelihood)
  \<close>
  The base notebook has the same function nested in \<^verbatim>\<open>FitBGModel\<close>, with the two
  summands written as one expression.
\<close>

definition NLogL :: "(real \<Rightarrow> real \<Rightarrow> npfloat) \<Rightarrow> real \<times> real \<Rightarrow> row list \<Rightarrow> npfloat" where
  "NLogL beta Params Data =
     (case Params of (Gamma, Delta) \<Rightarrow>
        let LogLikelihood = map (\<lambda>r.
              np_add
                (np_mul (Fin (Cust_Lost r))
                   (np_log (np_div (beta (Gamma + 1) (Delta + of_int (Period r) - 1))
                                   (beta Gamma Delta))))
                (np_mul (Fin (of_int (Final_Period r)))
                   (np_mul (Fin (Remaining r))
                      (np_log (np_div (beta Gamma (Delta + of_int (Period r)))
                                      (beta Gamma Delta)))))) Data
        in np_neg (py_sum LogLikelihood))"

text \<open>
  \<^verbatim>\<open>
  def NLogL_Alpha(Params, Data):
      (Gamma,Delta,Alpha) = Params
      DeltaUpd1 = Delta + np.maximum(0, 1 + (Alpha * (Data['Period'] - 1))).cumsum()
      DeltaUpd2 = Delta + np.maximum(0, 1 + (Alpha * Data['Period'])).cumsum()
      LogLikelihood = Data['Cust_Lost'] * np.log ((special.beta(Gamma, DeltaUpd1) - special.beta(Gamma, DeltaUpd2))/special.beta(Gamma,Delta))
      LogLikelihood += Data['Final_Period'] * Data['Remaining'] * np.log((special.beta(Gamma, DeltaUpd2))/special.beta(Gamma,Delta))
      return -sum(LogLikelihood)
  \<close>
\<close>

definition NLogL_Alpha ::
  "(real \<Rightarrow> real \<Rightarrow> npfloat) \<Rightarrow> real \<times> real \<times> real \<Rightarrow> row list \<Rightarrow> npfloat" where
  "NLogL_Alpha beta Params Data =
     (case Params of (Gamma, Delta, Alpha) \<Rightarrow>
        let DeltaUpd1 = map (\<lambda>c. Delta + c)
              (cumsum (map (\<lambda>r. max 0 (1 + Alpha * (of_int (Period r) - 1))) Data));
            DeltaUpd2 = map (\<lambda>c. Delta + c)
              (cumsum (map (\<lambda>r. max 0 (1 + Alpha * of_int (Period r))) Data));
            LogLikelihood = map (\<lambda>(r, d1, d2).
              np_add
                (np_mul (Fin (Cust_Lost r))
                   (np_log (np_div (np_sub (beta Gamma d1) (beta Gamma d2)) (beta Gamma Delta))))
                (np_mul (np_mul (Fin (of_int (Final_Period r))) (Fin (Remaining r)))
                   (np_log (np_div (beta Gamma d2) (beta Gamma Delta)))))
              (zip Data (zip DeltaUpd1 DeltaUpd2))
        in np_neg (py_sum LogLikelihood))"

subsection \<open>Fitting\<close>







subsection \<open>Projection: \<^verbatim>\<open>ExtrapolateBG\<close>\<close>

text \<open>
  Base notebook:
  \<^verbatim>\<open>
  def ExtrapolateBG(Initial_Pop, Gamma, Delta,Model_Periods):
      Output = pd.DataFrame({'Cust_Lost' : special.beta(Gamma+1, Delta + np.arange(1,Model_Periods+1) -1)/special.beta(Gamma, Delta)},
                           index=np.arange(1,Model_Periods+1))
      Output['Cust_Lost'] = Output['Cust_Lost'].cumsum() * Initial_Pop
      Output['Remaining'] = Initial_Pop - Output['Cust_Lost']
      return Output
  \<close>
  The arithmetic of the model is exact. In float64 the running sum of the churn
  fractions can round to a number above \<open>1\<close>, and the difference
  \<^verbatim>\<open>Initial_Pop - Output['Cust_Lost']\<close> then falls below \<open>0\<close> by a few units in the last
  place: the sign of a remaining count that small is outside the model.
\<close>

record output_row =
  Out_Index :: int
  Out_Cust_Lost :: npfloat
  Out_Remaining :: npfloat

definition ExtrapolateBG ::
  "(real \<Rightarrow> real \<Rightarrow> npfloat) \<Rightarrow> real \<Rightarrow> real \<Rightarrow> real \<Rightarrow> int \<Rightarrow> output_row list" where
  "ExtrapolateBG beta Initial_Pop Gamma Delta Model_Periods =
     (let index = [1..Model_Periods];
          lost0 = map (\<lambda>t. np_div (beta (Gamma + 1) (Delta + of_int t - 1))
                                   (beta Gamma Delta)) index;
          lost = map (\<lambda>c. np_mul c (Fin Initial_Pop)) (pd_cumsum lost0);
          remaining = map (\<lambda>l. np_sub (Fin Initial_Pop) l) lost
      in map (\<lambda>(t, l, r). \<lparr> Out_Index = t, Out_Cust_Lost = l, Out_Remaining = r \<rparr>)
           (zip index (zip lost remaining)))"

text \<open>
  Loyalty notebook (the function has the same name there; its result has the one column
  \<^verbatim>\<open>Remaining\<close>, given here with the index label):
  \<^verbatim>\<open>
  def ExtrapolateBG(Initial_Pop, Gamma, Delta, Alpha, Model_Periods):
      time = np.arange(1,Model_Periods+1)
      DeltaUpd2 = Delta + np.maximum(0, 1 + (Alpha * time )).cumsum()
      Output = pd.DataFrame({'Remaining' : (special.beta(Gamma, DeltaUpd2))/special.beta(Gamma,Delta)},
                           index=np.arange(1,Model_Periods+1))
      Output['Remaining'] = Initial_Pop * Output['Remaining']
      return Output
  \<close>
\<close>

definition ExtrapolateBG_Alpha ::
  "(real \<Rightarrow> real \<Rightarrow> npfloat) \<Rightarrow> real \<Rightarrow> real \<Rightarrow> real \<Rightarrow> real \<Rightarrow> int
     \<Rightarrow> (int \<times> npfloat) list" where
  "ExtrapolateBG_Alpha beta Initial_Pop Gamma Delta Alpha Model_Periods =
     (let time = [1..Model_Periods];
          DeltaUpd2 = map (\<lambda>c. Delta + c)
            (cumsum (map (\<lambda>t. max 0 (1 + Alpha * of_int t)) time))
      in map (\<lambda>(t, d2). (t, np_mul (Fin Initial_Pop) (np_div (beta Gamma d2) (beta Gamma Delta))))
           (zip time DeltaUpd2))"

subsection \<open>Euler's Beta function\<close>

text \<open>
  What the statements below need of \<^verbatim>\<open>special.beta\<close> is said of the parameter \<open>beta\<close>
  with these predicates, each about one first argument \<open>a\<close> and every positive second
  argument: the value is finite and positive, \<open>B(a + 1, b) = B(a, b) - B(a, b + 1)\<close>, and
  the value does not increase with \<open>b\<close>. Euler's Beta function has all three for every
  \<open>a > 0\<close> (lemmas \<open>Beta_pos_at\<close>, \<open>Beta_step_at\<close> and \<open>Beta_antitone_at\<close>).
\<close>

definition val :: "npfloat \<Rightarrow> real" where
  "val v = (case v of Fin r \<Rightarrow> r | _ \<Rightarrow> 0)"

definition fin_pos :: "npfloat \<Rightarrow> bool" where
  "fin_pos v = (case v of Fin r \<Rightarrow> 0 < r | _ \<Rightarrow> False)"

definition beta_pos_at :: "(real \<Rightarrow> real \<Rightarrow> npfloat) \<Rightarrow> real \<Rightarrow> bool" where
  "beta_pos_at beta a \<longleftrightarrow> (\<forall>b. 0 < b \<longrightarrow> fin_pos (beta a b))"

definition beta_step_at :: "(real \<Rightarrow> real \<Rightarrow> npfloat) \<Rightarrow> real \<Rightarrow> bool" where
  "beta_step_at beta a \<longleftrightarrow>
     (\<forall>b. 0 < b \<longrightarrow> beta (a + 1) b = Fin (val (beta a b) - val (beta a (b + 1))))"

definition beta_antitone_at :: "(real \<Rightarrow> real \<Rightarrow> npfloat) \<Rightarrow> real \<Rightarrow> bool" where
  "beta_antitone_at beta a \<longleftrightarrow>
     (\<forall>b c. 0 < b \<and> b \<le> c \<longrightarrow> val (beta a c) \<le> val (beta a b))"

text \<open>
  Euler's Beta function itself, for positive arguments, as the limit of its product
  formula \<open>B(a, b) = (a + b) / (a b) * \<Prod>\<^sub>k k (k + a + b) / ((k + a) (k + b))\<close>, the product over
  \<open>k = 1, 2, \<dots>\<close>. It is there to show that the three predicates hold of the function
  that \<^verbatim>\<open>special.beta\<close> computes; no statement is evaluated with it.
\<close>

definition beta_factor :: "real \<Rightarrow> real \<Rightarrow> nat \<Rightarrow> real" where
  "beta_factor a b k = (real k * (real k + a + b)) / ((real k + a) * (real k + b))"

definition beta_prod :: "real \<Rightarrow> real \<Rightarrow> nat \<Rightarrow> real" where
  "beta_prod a b n = (a + b) / (a * b) * (\<Prod>k = 1..n. beta_factor a b k)"

definition Beta :: "real \<Rightarrow> real \<Rightarrow> real" where
  "Beta a b = lim (beta_prod a b)"

text \<open>
  A closed form of Euler's Beta function for the arguments of which one is a positive
  integer: \<open>B(n, b) = (n - 1)! / (b (b + 1) \<dots> (b + n - 1))\<close>, and the same with the
  arguments exchanged. It is the instance of \<open>beta\<close> at which the statements are
  evaluated, and it agrees with \<open>Beta\<close> at every positive integer first argument and
  positive second argument (lemma \<open>beta_closed_Beta\<close>). It is not evaluated where neither
  argument is a positive integer (the value given there is NaN).
\<close>

definition is_pos_int :: "real \<Rightarrow> bool" where
  "is_pos_int a \<longleftrightarrow> 0 < a \<and> a = of_int \<lfloor>a\<rfloor>"

definition beta_closed :: "real \<Rightarrow> real \<Rightarrow> npfloat" where
  "beta_closed a b =
     (if is_pos_int a
      then np_div (Fin (fact (nat \<lfloor>a\<rfloor> - 1))) (Fin (pochhammer b (nat \<lfloor>a\<rfloor>)))
      else if is_pos_int b
      then np_div (Fin (fact (nat \<lfloor>b\<rfloor> - 1))) (Fin (pochhammer a (nat \<lfloor>b\<rfloor>)))
      else NaN)"

subsection \<open>The formulas of the specification\<close>

text \<open>
  A survival table has the periods \<open>1, \<dots>, T\<close> in order and the final-period flag in its
  last row only.
\<close>

definition valid_table :: "row list \<Rightarrow> bool" where
  "valid_table Data \<longleftrightarrow>
     Data \<noteq> [] \<and>
     (\<forall>i < length Data.
        Period (Data ! i) = int i + 1 \<and>
        Final_Period (Data ! i) = (if i = length Data - 1 then 1 else 0))"

text \<open>
  The base negative log-likelihood as the specification writes it, over the real numbers:
  \<open>- (\<Sum>\<^sub>t lost[t] * log (B(\<gamma> + 1, \<delta> + t - 1) / B(\<gamma>, \<delta>)) + remaining[T] * log (B(\<gamma>, \<delta> + T) / B(\<gamma>, \<delta>)))\<close>.
\<close>

definition base_formula :: "(real \<Rightarrow> real \<Rightarrow> real) \<Rightarrow> real \<Rightarrow> real \<Rightarrow> row list \<Rightarrow> real" where
  "base_formula B \<gamma> \<delta> Data =
     - ((\<Sum>r\<leftarrow>Data. Cust_Lost r * ln (B (\<gamma> + 1) (\<delta> + of_int (Period r) - 1) / B \<gamma> \<delta>))
        + Remaining (last Data) * ln (B \<gamma> (\<delta> + of_int (Period (last Data))) / B \<gamma> \<delta>))"

text \<open>
  The cumulative exponents and the extended negative log-likelihood as the specification
  writes them.
\<close>

definition cumA :: "real \<Rightarrow> int \<Rightarrow> real" where
  "cumA \<alpha> t = (\<Sum>i\<leftarrow>[1..t - 1]. max 0 (1 + \<alpha> * of_int i))"

definition cumB :: "real \<Rightarrow> int \<Rightarrow> real" where
  "cumB \<alpha> t = (\<Sum>i\<leftarrow>[1..t]. max 0 (1 + \<alpha> * of_int i))"

definition extended_formula ::
  "(real \<Rightarrow> real \<Rightarrow> real) \<Rightarrow> real \<Rightarrow> real \<Rightarrow> real \<Rightarrow> row list \<Rightarrow> real" where
  "extended_formula B \<gamma> \<delta> \<alpha> Data =
     - ((\<Sum>r\<leftarrow>Data. Cust_Lost r *
            ln ((B \<gamma> (\<delta> + cumA \<alpha> (Period r)) - B \<gamma> (\<delta> + cumB \<alpha> (Period r))) / B \<gamma> \<delta>))
        + Remaining (last Data) * ln (B \<gamma> (\<delta> + cumB \<alpha> (Period (last Data))) / B \<gamma> \<delta>))"

text \<open>
  The share of the initial population lost up to period \<open>t\<close>: the sum over the periods
  \<open>s = 1, \<dots>, t\<close> of the churn probabilities \<open>B(\<gamma> + 1, \<delta> + s - 1) / B(\<gamma>, \<delta>)\<close>.
\<close>

definition cum_churn :: "(real \<Rightarrow> real \<Rightarrow> real) \<Rightarrow> real \<Rightarrow> real \<Rightarrow> int \<Rightarrow> real" where
  "cum_churn B \<gamma> \<delta> t = (\<Sum>s\<leftarrow>[1..t]. B (\<gamma> + 1) (\<delta> + of_int s - 1) / B \<gamma> \<delta>)"

text \<open>
  The invariants of a forecast: the remaining column does not increase with the period
  and stays between \<open>0\<close> and the initial population \<open>N\<close>.
\<close>

definition projection_ok :: "real \<Rightarrow> npfloat list \<Rightarrow> bool" where
  "projection_ok N rem \<longleftrightarrow>
     sorted_wrt (\<lambda>u v. np_le v u) rem \<and> (\<forall>v \<in> set rem. np_le (Fin 0) v \<and> np_le v (Fin N))"

section \<open>Auxiliary facts\<close>

subsection \<open>The rows of the survival table\<close>

lemma diff_nth:
  assumes "0 < i" "i < length xs"
  shows "fillna 0 (diff xs) ! i = xs ! i - xs ! (i - 1)"
proof (cases xs)
  case Nil
  with assms show ?thesis by simp
next
  case (Cons x ys)
  from assms obtain j where j: "i = Suc j" by (cases i) auto
  with assms Cons have "j < length ys" by simp
  then show ?thesis
    using Cons j by (simp add: fillna_def)
qed

lemma length_fillna: "length (fillna v xs) = length xs"
  by (simp add: fillna_def)

lemma length_diff: "length (diff xs) = length xs"
  by (cases xs) simp_all

lemma filter_upt_pos: "filter ((<) 0) [0..<n] = [Suc 0..<n]"
proof (cases n)
  case 0
  then show ?thesis by simp
next
  case (Suc m)
  have "filter ((<) 0) [Suc 0..<Suc m] = [Suc 0..<Suc m]"
    by (rule filter_True) auto
  then show ?thesis
    using Suc by (simp add: upt_conv_Cons)
qed

lemma FormatBGData_rows:
  "FormatBGData raw =
     map (\<lambda>t. \<lparr> Remaining = raw ! t, Cust_Lost = raw ! (t - 1) - raw ! t,
                 Period = int t,
                 Final_Period = (if t = length raw - 1 then 1 else 0) \<rparr>) [1..<length raw]"
proof -
  have "filter (\<lambda>r. Period r \<noteq> 0)
          (map (\<lambda>i. \<lparr> Remaining = raw ! i,
                       Cust_Lost = map (\<lambda>d. - 1 * d) (fillna 0 (diff raw)) ! i,
                       Period = int i,
                       Final_Period = (if i = length raw - 1 then 1 else 0) \<rparr>) [0..<length raw])
      = map (\<lambda>i. \<lparr> Remaining = raw ! i,
                       Cust_Lost = map (\<lambda>d. - 1 * d) (fillna 0 (diff raw)) ! i,
                       Period = int i,
                       Final_Period = (if i = length raw - 1 then 1 else 0) \<rparr>) [1..<length raw]"
    by (simp add: filter_map o_def filter_upt_pos)
  also have "\<dots> = map (\<lambda>t. \<lparr> Remaining = raw ! t, Cust_Lost = raw ! (t - 1) - raw ! t,
                 Period = int t,
                 Final_Period = (if t = length raw - 1 then 1 else 0) \<rparr>) [1..<length raw]"
    by (rule map_cong) (simp_all add: diff_nth length_fillna length_diff)
  finally show ?thesis
    by (simp add: FormatBGData_def Let_def)
qed

lemma valid_table_FormatBGData:
  assumes "2 \<le> length raw"
  shows "valid_table (FormatBGData raw)"
  using assms unfolding FormatBGData_rows valid_table_def
  by (auto simp: nth_append)

subsection \<open>Sums of finite terms\<close>

lemma foldl_np_add_Fin:
  assumes "\<And>x. x \<in> set xs \<Longrightarrow> f x = Fin (g x)"
  shows "foldl np_add (Fin a) (map f xs) = Fin (a + sum_list (map g xs))"
  using assms by (induction xs arbitrary: a) (simp_all add: add.assoc)

lemma py_sum_Fin:
  assumes "\<And>x. x \<in> set xs \<Longrightarrow> f x = Fin (g x)"
  shows "py_sum (map f xs) = Fin (sum_list (map g xs))"
  using foldl_np_add_Fin [where a = 0 and xs = xs and f = f and g = g] assms
  by (simp add: py_sum_def)

lemma valid_table_Period:
  assumes "valid_table Data" "r \<in> set Data"
  shows "1 \<le> Period r"
proof -
  from assms(2) obtain i where "i < length Data" "r = Data ! i"
    by (auto simp: in_set_conv_nth)
  with assms(1) show ?thesis by (simp add: valid_table_def)
qed

lemma valid_table_flag_sum:
  assumes "valid_table Data"
  shows "(\<Sum>r\<leftarrow>Data. of_int (Final_Period r) * g r) = (g (last Data) :: real)"
proof -
  let ?n = "length Data"
  from assms have ne: "Data \<noteq> []" by (simp add: valid_table_def)
  have "(\<Sum>r\<leftarrow>Data. of_int (Final_Period r) * g r)
      = (\<Sum>i = 0..<?n. of_int (Final_Period (Data ! i)) * g (Data ! i))"
    by (simp add: sum_list_sum_nth)
  also have "\<dots> = (\<Sum>i = 0..<?n. if i = ?n - 1 then g (Data ! i) else 0)"
    using assms by (intro sum.cong) (auto simp: valid_table_def)
  also have "\<dots> = g (Data ! (?n - 1))"
    using ne by (simp add: sum.delta)
  also have "\<dots> = g (last Data)"
    using ne by (simp add: last_conv_nth)
  finally show ?thesis .
qed

lemma fin_posD: "fin_pos v \<Longrightarrow> \<exists>r. v = Fin r \<and> 0 < r"
  by (cases v) (simp_all add: fin_pos_def)

lemma np_log_ratio:
  assumes "fin_pos u" "fin_pos w"
  shows "np_log (np_div u w) = Fin (ln (val u / val w))"
proof -
  from assms obtain a b where "u = Fin a" "0 < a" "w = Fin b" "0 < b"
    by (auto dest!: fin_posD)
  then show ?thesis by (simp add: val_def)
qed

subsection \<open>The closed form of the Beta function\<close>

lemma beta_closed_1: "0 < b \<Longrightarrow> beta_closed 1 b = Fin (1 / b)"
  by (simp add: beta_closed_def is_pos_int_def)

lemma beta_closed_2: "0 < b \<Longrightarrow> beta_closed 2 b = Fin (1 / (b * (b + 1)))"
  by (simp add: beta_closed_def is_pos_int_def numeral_2_eq_2 pochhammer_Suc)

lemma beta_closed_pos_1: "beta_pos_at beta_closed 1"
  by (simp add: beta_pos_at_def beta_closed_1 fin_pos_def)

lemma beta_closed_pos_2: "beta_pos_at beta_closed 2"
  by (simp add: beta_pos_at_def beta_closed_2 fin_pos_def)

lemma beta_closed_step_1: "beta_step_at beta_closed 1"
  by (simp add: beta_step_at_def beta_closed_1 beta_closed_2 val_def field_simps)

lemma beta_closed_antitone_1: "beta_antitone_at beta_closed 1"
  by (simp add: beta_antitone_at_def beta_closed_1 val_def frac_le)

lemma table_scenario: "FormatBGData [1000, 800, 275, 250, 220] =
     [\<lparr> Remaining = 800, Cust_Lost = 200, Period = 1, Final_Period = 0 \<rparr>,
      \<lparr> Remaining = 275, Cust_Lost = 525, Period = 2, Final_Period = 0 \<rparr>,
      \<lparr> Remaining = 250, Cust_Lost = 25, Period = 3, Final_Period = 0 \<rparr>,
      \<lparr> Remaining = 220, Cust_Lost = 30, Period = 4, Final_Period = 1 \<rparr>]"
  by (simp add: FormatBGData_def fillna_def upt_conv_Cons)

subsection \<open>Running sums\<close>

lemma pd_cumsum_from_Fin: "pd_cumsum_from (Fin a) (map Fin xs) = map Fin (cumsum_from a xs)"
  by (induction xs arbitrary: a) simp_all

lemma cumsum_from_upto:
  "cumsum_from a (map w [i..j]) = map (\<lambda>t. a + sum_list (map w [i..t])) [i..j]"
proof (induction i j arbitrary: a rule: upto.induct)
  case (1 i j)
  show ?case
  proof (cases "i \<le> j")
    case True
    have "map (\<lambda>t. a + w i + sum_list (map w [i + 1..t])) [i + 1..j]
        = map (\<lambda>t. a + sum_list (map w [i..t])) [i + 1..j]"
      by (rule map_cong) (simp_all add: upto_rec1)
    with True "1.IH" [OF True, of "a + w i"] show ?thesis
      by (simp add: upto_rec1)
  next
    case False
    then show ?thesis by simp
  qed
qed

lemma sum_list_telescope:
  fixes f :: "int \<Rightarrow> real"
  shows "i \<le> t + 1 \<Longrightarrow> sum_list (map (\<lambda>s. f (s - 1) - f s) [i..t]) = f (i - 1) - f t"
proof (induction i t rule: upto.induct)
  case (1 i t)
  show ?case
  proof (cases "i \<le> t")
    case True
    with "1.IH" show ?thesis by (simp add: upto_rec1)
  next
    case False
    with "1.prems" have "i = t + 1" by simp
    then show ?thesis by simp
  qed
qed

subsection \<open>The projections\<close>

lemma zip3_map:
  "zip xs (zip (map g xs) (map h xs)) = map (\<lambda>x. (x, g x, h x)) xs"
  by (induction xs) simp_all

lemma zip_id_map: "zip xs (map g xs) = map (\<lambda>x. (x, g x)) xs"
  by (induction xs) simp_all

lemma ExtrapolateBG_Alpha_rows:
  "ExtrapolateBG_Alpha beta N \<gamma> \<delta> \<alpha> H =
     map (\<lambda>t. (t, np_mul (Fin N) (np_div (beta \<gamma> (\<delta> + cumB \<alpha> t)) (beta \<gamma> \<delta>)))) [1..H]"
  by (simp add: ExtrapolateBG_Alpha_def cumsum_def cumsum_from_upto zip_id_map cumB_def o_def)

lemma ExtrapolateBG_rows:
  assumes "0 < \<gamma>" "0 < \<delta>" "beta_pos_at beta \<gamma>" "beta_step_at beta \<gamma>"
  shows "ExtrapolateBG beta N \<gamma> \<delta> H =
     map (\<lambda>t. \<lparr> Out_Index = t,
                 Out_Cust_Lost = Fin ((1 - val (beta \<gamma> (\<delta> + of_int t)) / val (beta \<gamma> \<delta>)) * N),
                 Out_Remaining = Fin (N * val (beta \<gamma> (\<delta> + of_int t)) / val (beta \<gamma> \<delta>)) \<rparr>)
       [1..H]"
proof -
  let ?B = "\<lambda>b. val (beta \<gamma> b)"
  let ?g = "\<lambda>t::int. ?B (\<delta> + of_int t) / ?B \<delta>"
  from assms(2,3) obtain b0 where b0: "beta \<gamma> \<delta> = Fin b0" "0 < b0"
    by (auto simp: beta_pos_at_def dest!: fin_posD)
  then have B0: "?B \<delta> = b0" by (simp add: val_def)
  have lost0: "map (\<lambda>t. np_div (beta (\<gamma> + 1) (\<delta> + of_int t - 1)) (beta \<gamma> \<delta>)) [1..H]
      = map Fin (map (\<lambda>t. ?g (t - 1) - ?g t) [1..H])"
  proof -
    have "np_div (beta (\<gamma> + 1) (\<delta> + of_int t - 1)) (beta \<gamma> \<delta>) = Fin (?g (t - 1) - ?g t)"
      if "t \<in> set [1..H]" for t
    proof -
      from that assms(2) have pos: "0 < \<delta> + of_int t - 1" by simp
      have "beta (\<gamma> + 1) (\<delta> + of_int t - 1)
          = Fin (?B (\<delta> + of_int t - 1) - ?B (\<delta> + of_int t - 1 + 1))"
        using assms(4) pos by (simp add: beta_step_at_def)
      then show ?thesis
        using b0 B0 by (simp add: diff_divide_distrib algebra_simps)
    qed
    then show ?thesis by simp
  qed
  have cum: "cumsum (map (\<lambda>t. ?g (t - 1) - ?g t) [1..H]) = map (\<lambda>t. 1 - ?g t) [1..H]"
  proof -
    have "sum_list (map (\<lambda>s. ?g (s - 1) - ?g s) [1..t]) = 1 - ?g t" if "t \<in> set [1..H]" for t
      using that sum_list_telescope [of 1 t ?g] b0 B0 by simp
    then show ?thesis
      by (simp add: cumsum_def cumsum_from_upto)
  qed
  have "pd_cumsum (map (\<lambda>t. np_div (beta (\<gamma> + 1) (\<delta> + of_int t - 1)) (beta \<gamma> \<delta>)) [1..H])
      = map (\<lambda>t. Fin (1 - ?g t)) [1..H]"
    unfolding lost0 pd_cumsum_def pd_cumsum_from_Fin
    using cum by (simp add: cumsum_def o_def)
  then show ?thesis
    by (simp add: ExtrapolateBG_def Let_def zip3_map o_def np_sub_def algebra_simps)
qed

lemma cumB_zero: "0 \<le> t \<Longrightarrow> cumB 0 t = of_int t"
proof -
  assume "0 \<le> t"
  have "sum_list (map (\<lambda>i::int. 1::real) [1..t]) = of_int t"
    using \<open>0 \<le> t\<close> by (simp add: sum_list_triv)
  then show ?thesis by (simp add: cumB_def)
qed

lemma beta_pos_atD:
  assumes "beta_pos_at beta a" "0 < b"
  shows "beta a b = Fin (val (beta a b))" and "0 < val (beta a b)"
proof -
  from assms have "fin_pos (beta a b)" by (simp add: beta_pos_at_def)
  then obtain r where "beta a b = Fin r" "0 < r" by (auto dest: fin_posD)
  then show "beta a b = Fin (val (beta a b))" and "0 < val (beta a b)"
    by (simp_all add: val_def)
qed

lemma np_mul_div_beta:
  assumes "beta_pos_at beta a" "0 < b" "0 < d"
  shows "np_mul (Fin N) (np_div (beta a b) (beta a d)) = Fin (N * val (beta a b) / val (beta a d))"
proof -
  have "np_div (Fin (val (beta a b))) (Fin (val (beta a d))) = Fin (val (beta a b) / val (beta a d))"
    using beta_pos_atD(2) [OF assms(1,3)] by simp
  then show ?thesis
    using beta_pos_atD(1) [OF assms(1,2)] beta_pos_atD(1) [OF assms(1,3)] by simp
qed

lemma cumB_nonneg: "0 \<le> cumB \<alpha> t"
  unfolding cumB_def by (rule sum_list_nonneg) auto

lemma cumB_mono:
  assumes "1 \<le> s" "s \<le> t"
  shows "cumB \<alpha> s \<le> cumB \<alpha> t"
proof -
  have "[1..t] = [1..s] @ [s + 1..t]"
    using assms upto_split2 [of 1 s t] by simp
  moreover have "0 \<le> sum_list (map (\<lambda>i. max 0 (1 + \<alpha> * real_of_int i)) [s + 1..t])"
    by (rule sum_list_nonneg) auto
  ultimately show ?thesis by (simp add: cumB_def)
qed

lemma projection_ok_map:
  fixes c :: "int \<Rightarrow> real"
  assumes "0 < \<delta>" "0 \<le> N" "beta_pos_at beta \<gamma>" "beta_antitone_at beta \<gamma>"
    and mono: "\<And>s t. 1 \<le> s \<Longrightarrow> s \<le> t \<Longrightarrow> c s \<le> c t"
    and nonneg: "\<And>t. 1 \<le> t \<Longrightarrow> 0 \<le> c t"
  shows "projection_ok N
           (map (\<lambda>t. Fin (N * val (beta \<gamma> (\<delta> + c t)) / val (beta \<gamma> \<delta>))) [1..H])"
proof -
  let ?B = "\<lambda>b. val (beta \<gamma> b)"
  have pos: "0 < ?B b" if "0 < b" for b
    using assms(3) that by (auto simp: beta_pos_at_def val_def dest!: fin_posD)
  have anti: "?B b' \<le> ?B b" if "0 < b" "b \<le> b'" for b b'
    using assms(4) that by (simp add: beta_antitone_at_def)
  have B0: "0 < ?B \<delta>" using pos assms(1) by simp
  have step: "N * ?B (\<delta> + c t) / ?B \<delta> \<le> N * ?B (\<delta> + c s) / ?B \<delta>"
    if "1 \<le> s" "s \<le> t" for s t
  proof -
    have "0 < \<delta> + c s" "\<delta> + c s \<le> \<delta> + c t"
      using that assms(1) nonneg [of s] mono [of s t] by simp_all
    then have "?B (\<delta> + c t) \<le> ?B (\<delta> + c s)" by (rule anti)
    with assms(2) B0 show ?thesis
      by (simp add: divide_right_mono mult_left_mono)
  qed
  have lower: "0 \<le> N * ?B (\<delta> + c t) / ?B \<delta>" if "1 \<le> t" for t
  proof -
    have "0 < \<delta> + c t" using that assms(1) nonneg [of t] by simp
    then have "0 < ?B (\<delta> + c t)" by (rule pos)
    with assms(2) B0 show ?thesis by simp
  qed
  have upper: "N * ?B (\<delta> + c t) / ?B \<delta> \<le> N" if "1 \<le> t" for t
  proof -
    have "?B (\<delta> + c t) \<le> ?B \<delta>"
      using that assms(1) nonneg [of t] by (intro anti) simp_all
    then have "?B (\<delta> + c t) / ?B \<delta> \<le> 1"
      using B0 by simp
    then have "N * (?B (\<delta> + c t) / ?B \<delta>) \<le> N * 1"
      using assms(2) by (rule mult_left_mono)
    then show ?thesis by simp
  qed
  have "sorted_wrt (\<lambda>s t. N * ?B (\<delta> + c t) / ?B \<delta> \<le> N * ?B (\<delta> + c s) / ?B \<delta>) [1..H]"
    by (rule sorted_wrt_mono_rel [of _ "(<)"]) (auto intro: step)
  then show ?thesis
    using lower upper by (simp add: projection_ok_def sorted_wrt_map)
qed

subsection \<open>The extended likelihood row by row\<close>

lemma valid_table_Periods:
  assumes "valid_table Data"
  shows "map Period Data = [1..int (length Data)]"
proof (rule nth_equalityI)
  show "length (map Period Data) = length [1..int (length Data)]" by simp
next
  fix i assume "i < length (map Period Data)"
  then show "map Period Data ! i = [1..int (length Data)] ! i"
    using assms by (simp add: valid_table_def)
qed

lemma sum_list_shift:
  fixes f :: "int \<Rightarrow> real"
  shows "sum_list (map (\<lambda>i. f (i - 1)) [a + 1..b + 1]) = sum_list (map f [a..b])"
proof (induction a b rule: upto.induct)
  case (1 a b)
  show ?case
  proof (cases "a \<le> b")
    case True
    with "1.IH" show ?thesis by (simp add: upto_rec1)
  next
    case False
    then show ?thesis by simp
  qed
qed

lemma cumA_code:
  assumes "1 \<le> t"
  shows "sum_list (map (\<lambda>i. max 0 (1 + \<alpha> * (real_of_int i - 1))) [1..t]) = 1 + cumA \<alpha> t"
proof -
  have "sum_list (map (\<lambda>i. max 0 (1 + \<alpha> * real_of_int (i - 1))) [1 + 1..(t - 1) + 1])
      = sum_list (map (\<lambda>i. max 0 (1 + \<alpha> * real_of_int i)) [1..t - 1])"
    by (rule sum_list_shift)
  then show ?thesis
    using assms by (simp add: upto_rec1 [of 1 t] cumA_def)
qed

lemma DeltaUpd1_rows:
  assumes "valid_table Data"
  shows "cumsum (map (\<lambda>r. max 0 (1 + \<alpha> * (real_of_int (Period r) - 1))) Data)
           = map (\<lambda>r. 1 + cumA \<alpha> (Period r)) Data"
proof -
  let ?n = "int (length Data)"
  have "map (\<lambda>r. max 0 (1 + \<alpha> * (real_of_int (Period r) - 1))) Data
      = map (\<lambda>t. max 0 (1 + \<alpha> * (real_of_int t - 1))) (map Period Data)"
    by (simp add: o_def)
  then have "cumsum (map (\<lambda>r. max 0 (1 + \<alpha> * (real_of_int (Period r) - 1))) Data)
      = map (\<lambda>t. sum_list (map (\<lambda>i. max 0 (1 + \<alpha> * (real_of_int i - 1))) [1..t])) [1..?n]"
    by (simp only: valid_table_Periods [OF assms] cumsum_def cumsum_from_upto add_0)
  also have "\<dots> = map (\<lambda>t. 1 + cumA \<alpha> t) [1..?n]"
    by (rule map_cong) (simp_all add: cumA_code)
  also have "\<dots> = map (\<lambda>r. 1 + cumA \<alpha> (Period r)) Data"
    using valid_table_Periods [OF assms, symmetric] by (simp add: o_def)
  finally show ?thesis .
qed

lemma DeltaUpd2_rows:
  assumes "valid_table Data"
  shows "cumsum (map (\<lambda>r. max 0 (1 + \<alpha> * real_of_int (Period r))) Data)
           = map (\<lambda>r. cumB \<alpha> (Period r)) Data"
proof -
  let ?n = "int (length Data)"
  have "map (\<lambda>r. max 0 (1 + \<alpha> * real_of_int (Period r))) Data
      = map (\<lambda>t. max 0 (1 + \<alpha> * real_of_int t)) (map Period Data)"
    by (simp add: o_def)
  then have "cumsum (map (\<lambda>r. max 0 (1 + \<alpha> * real_of_int (Period r))) Data)
      = map (\<lambda>t. sum_list (map (\<lambda>i. max 0 (1 + \<alpha> * real_of_int i)) [1..t])) [1..?n]"
    by (simp only: valid_table_Periods [OF assms] cumsum_def cumsum_from_upto add_0)
  also have "\<dots> = map (\<lambda>r. cumB \<alpha> (Period r)) Data"
    using valid_table_Periods [OF assms, symmetric] by (simp add: o_def cumB_def)
  finally show ?thesis .
qed

lemma NLogL_Alpha_rows:
  assumes "valid_table Data"
  shows "NLogL_Alpha beta (\<gamma>, \<delta>, \<alpha>) Data =
     np_neg (py_sum (map (\<lambda>r.
       np_add
         (np_mul (Fin (Cust_Lost r))
            (np_log (np_div (np_sub (beta \<gamma> (\<delta> + (1 + cumA \<alpha> (Period r))))
                                    (beta \<gamma> (\<delta> + cumB \<alpha> (Period r))))
                            (beta \<gamma> \<delta>))))
         (np_mul (np_mul (Fin (of_int (Final_Period r))) (Fin (Remaining r)))
            (np_log (np_div (beta \<gamma> (\<delta> + cumB \<alpha> (Period r))) (beta \<gamma> \<delta>))))) Data))"
  unfolding NLogL_Alpha_def
  by (simp add: DeltaUpd1_rows [OF assms] DeltaUpd2_rows [OF assms] zip3_map o_def)

lemma foldl_np_add_NaN: "foldl np_add NaN xs = NaN"
  by (induction xs) simp_all

lemma py_sum_NaN:
  assumes "NaN \<in> set xs"
  shows "py_sum xs = NaN"
proof -
  have "foldl np_add a xs = NaN" for a
    using assms
  proof (induction xs arbitrary: a)
    case Nil
    then show ?case by simp
  next
    case (Cons x xs)
    show ?case
    proof (cases "x = NaN")
      case True
      then have "np_add a x = NaN" by (cases a) simp_all
      then show ?thesis by (simp add: foldl_np_add_NaN)
    next
      case False
      with Cons.prems have "NaN \<in> set xs" by simp
      then show ?thesis by (simp add: Cons.IH)
    qed
  qed
  then show ?thesis by (simp add: py_sum_def)
qed

lemma beta_closed_int2:
  "\<not> is_pos_int a \<Longrightarrow> is_pos_int b \<Longrightarrow>
     beta_closed a b = np_div (Fin (fact (nat \<lfloor>b\<rfloor> - 1))) (Fin (pochhammer a (nat \<lfloor>b\<rfloor>)))"
  by (simp add: beta_closed_def)

lemma not_pos_int_half: "\<not> is_pos_int (1 / 2)" "\<not> is_pos_int (- 1 / 2)" "\<not> is_pos_int (- (1 / 2))"
  by (simp_all add: is_pos_int_def)

lemma beta_closed_half:
  "beta_closed (1 / 2) 1 = Fin 2"
  "beta_closed (1 / 2) 2 = Fin (4 / 3)"
  "beta_closed (1 / 2) 3 = Fin (16 / 15)"
  "beta_closed (1 / 2) 4 = Fin (32 / 35)"
  "beta_closed (- (1 / 2)) 1 = Fin (- 2)"
  "beta_closed (- (1 / 2)) 2 = Fin (- 4)"
  "beta_closed (- (1 / 2)) 3 = Fin (- (16 / 3))"
  "beta_closed (- (1 / 2)) 4 = Fin (- (32 / 5))"
  "beta_closed (- (1 / 2)) 5 = Fin (- (256 / 35))"
  by (simp_all add: beta_closed_int2 not_pos_int_half is_pos_int_def eval_nat_numeral
      pochhammer_Suc)

subsection \<open>Euler's Beta function has the assumed properties\<close>

lemma beta_factor_bounds:
  assumes "0 < a" "0 < b" "1 \<le> k"
  shows "0 < beta_factor a b k" "beta_factor a b k \<le> 1"
proof -
  have k: "0 < real k" using assms(3) by simp
  with assms show "0 < beta_factor a b k"
    by (simp add: beta_factor_def)
  have "real k * (real k + a + b) \<le> (real k + a) * (real k + b)"
    using assms k by (simp add: algebra_simps)
  moreover have "0 < (real k + a) * (real k + b)"
    using assms k by simp
  ultimately show "beta_factor a b k \<le> 1"
    by (simp add: beta_factor_def)
qed

lemma beta_prod_Suc: "beta_prod a b (Suc n) = beta_prod a b n * beta_factor a b (Suc n)"
  by (simp add: beta_prod_def)

lemma beta_prod_pos:
  assumes "0 < a" "0 < b"
  shows "0 < beta_prod a b n"
proof -
  have "0 < (\<Prod>k = 1..n. beta_factor a b k)"
    by (rule prod_pos) (simp add: beta_factor_bounds(1) [OF assms])
  with assms show ?thesis by (simp add: beta_prod_def)
qed

lemma beta_prod_decseq:
  assumes "0 < a" "0 < b"
  shows "decseq (beta_prod a b)"
proof (rule decseq_SucI)
  fix n
  have "beta_prod a b n * beta_factor a b (Suc n) \<le> beta_prod a b n * 1"
    using beta_prod_pos [OF assms, of n] beta_factor_bounds(2) [OF assms, of "Suc n"]
    by (intro mult_left_mono) simp_all
  then show "beta_prod a b (Suc n) \<le> beta_prod a b n"
    by (simp add: beta_prod_Suc)
qed

lemma beta_prod_tendsto:
  assumes "0 < a" "0 < b"
  shows "beta_prod a b \<longlonglongrightarrow> Beta a b"
proof -
  have "\<forall>i. 0 \<le> beta_prod a b i"
    using beta_prod_pos [OF assms] by (simp add: less_imp_le)
  with beta_prod_decseq [OF assms] obtain L where "beta_prod a b \<longlonglongrightarrow> L"
    by (rule decseq_convergent)
  then show ?thesis by (simp add: Beta_def limI)
qed

lemma Beta_nonneg:
  assumes "0 < a" "0 < b"
  shows "0 \<le> Beta a b"
  using beta_prod_tendsto [OF assms]
  by (rule LIMSEQ_le_const) (simp add: beta_prod_pos [OF assms] less_imp_le)

lemma beta_factor_commute: "beta_factor a b k = beta_factor b a k"
  by (simp add: beta_factor_def add.commute add.left_commute mult.commute)

lemma beta_prod_commute: "beta_prod a b n = beta_prod b a n"
  by (simp add: beta_prod_def beta_factor_commute [of a b] add.commute [of a b] mult.commute [of a b])

lemma Beta_commute: "Beta a b = Beta b a"
proof -
  have "beta_prod a b = beta_prod b a"
    by (rule ext) (rule beta_prod_commute)
  then show ?thesis by (simp add: Beta_def)
qed

lemma beta_shift_key:
  fixes x a b :: real
  shows "(x + a + b) / (x + b) * (x * (x + a + b + 1) / ((x + a) * (x + b + 1)))
       = x * (x + a + b) / ((x + a) * (x + b)) * ((x + a + b + 1) / (x + b + 1))"
  by (simp only: times_divide_times_eq mult.assoc mult.commute mult.left_commute)

lemma beta_prod_shift:
  assumes "0 < a" "0 < b"
  shows "beta_prod a (b + 1) n
       = beta_prod a b n * (b / (a + b)) * ((real n + a + b + 1) / (real n + b + 1))"
proof (induction n)
  case 0
  have "a \<noteq> 0" "b \<noteq> 0" "a + b \<noteq> 0" "b + 1 \<noteq> 0"
    using assms by simp_all
  then have "(a + (b + 1)) / (a * (b + 1)) = (a + b) / (a * b) * (b / (a + b)) * ((a + b + 1) / (b + 1))"
    by (simp add: add.assoc)
  then show ?case by (simp add: beta_prod_def)
next
  case (Suc n)
  let ?r = "\<lambda>n. (real n + a + b + 1) / (real n + b + 1)"
  have e: "real (Suc n) = real n + 1" by simp
  have key: "?r n * beta_factor a (b + 1) (Suc n) = beta_factor a b (Suc n) * ?r (Suc n)"
    unfolding beta_factor_def e
    using beta_shift_key [of "real n + 1" a b]
    by (simp only: add.assoc add.commute add.left_commute)
  have "beta_prod a (b + 1) (Suc n) = beta_prod a (b + 1) n * beta_factor a (b + 1) (Suc n)"
    by (rule beta_prod_Suc)
  also have "\<dots> = beta_prod a b n * (b / (a + b)) * (?r n * beta_factor a (b + 1) (Suc n))"
    by (simp only: Suc.IH mult.assoc)
  also have "\<dots> = beta_prod a b n * (b / (a + b)) * (beta_factor a b (Suc n) * ?r (Suc n))"
    by (simp only: key)
  also have "\<dots> = beta_prod a b (Suc n) * (b / (a + b)) * ?r (Suc n)"
    by (simp only: beta_prod_Suc mult.assoc mult.left_commute mult.commute)
  finally show ?case .
qed

lemma ratio_tendsto:
  assumes "0 < a" "0 \<le> b"
  shows "(\<lambda>n. (real n + a + b + 1) / (real n + b + 1)) \<longlonglongrightarrow> 1"
proof -
  have "(\<lambda>n. a * inverse (real (Suc n))) \<longlonglongrightarrow> a * 0"
    by (intro tendsto_mult tendsto_const LIMSEQ_inverse_real_of_nat)
  then have up: "(\<lambda>n. a * inverse (real (Suc n))) \<longlonglongrightarrow> 0" by simp
  have lo: "(\<lambda>n::nat. 0::real) \<longlonglongrightarrow> 0" by simp
  have b1: "0 \<le> a / (real n + b + 1)" for n
    using assms by simp
  have b2: "a / (real n + b + 1) \<le> a * inverse (real (Suc n))" for n
  proof -
    have "a / (real n + b + 1) \<le> a / (real n + 1)"
      using assms by (intro divide_left_mono) simp_all
    then show ?thesis by (simp add: divide_inverse add.commute)
  qed
  have e1: "\<forall>\<^sub>F n in sequentially. 0 \<le> a / (real n + b + 1)"
    using b1 by (intro always_eventually allI)
  have e2: "\<forall>\<^sub>F n in sequentially. a / (real n + b + 1) \<le> a * inverse (real (Suc n))"
    using b2 by (intro always_eventually allI)
  have "(\<lambda>n. a / (real n + b + 1)) \<longlonglongrightarrow> 0"
    by (rule tendsto_sandwich [OF e1 e2 lo up])
  then have "(\<lambda>n. 1 + a / (real n + b + 1)) \<longlonglongrightarrow> 1 + 0"
    by (intro tendsto_add tendsto_const)
  moreover have "(real n + a + b + 1) / (real n + b + 1) = 1 + a / (real n + b + 1)" for n
  proof -
    have "real n + b + 1 \<noteq> 0" using assms by (simp add: add_pos_nonneg [THEN less_imp_neq [THEN not_sym]])
    then show ?thesis by (simp add: field_simps)
  qed
  ultimately show ?thesis by simp
qed

lemma Beta_shift:
  assumes "0 < a" "0 < b"
  shows "Beta a (b + 1) = Beta a b * (b / (a + b))"
proof -
  have "(\<lambda>n. beta_prod a b n * (b / (a + b)) * ((real n + a + b + 1) / (real n + b + 1)))
      \<longlonglongrightarrow> Beta a b * (b / (a + b)) * 1"
    by (intro tendsto_mult tendsto_const beta_prod_tendsto ratio_tendsto assms less_imp_le)
  moreover have "beta_prod a (b + 1)
      = (\<lambda>n. beta_prod a b n * (b / (a + b)) * ((real n + a + b + 1) / (real n + b + 1)))"
    by (rule ext) (rule beta_prod_shift [OF assms])
  ultimately have "beta_prod a (b + 1) \<longlonglongrightarrow> Beta a b * (b / (a + b))"
    by (simp only: mult_1_right)
  moreover have "beta_prod a (b + 1) \<longlonglongrightarrow> Beta a (b + 1)"
    using assms by (intro beta_prod_tendsto) simp_all
  ultimately show ?thesis by (rule LIMSEQ_unique [symmetric])
qed

lemma Beta_shift_first:
  assumes "0 < a" "0 < b"
  shows "Beta (a + 1) b = Beta a b * (a / (a + b))"
  using Beta_shift [OF assms(2,1)] by (simp add: Beta_commute [of b] add.commute)

lemma Beta_step:
  assumes "0 < a" "0 < b"
  shows "Beta (a + 1) b = Beta a b - Beta a (b + 1)"
proof -
  have "a + b \<noteq> 0" using assms by simp
  then have "1 - b / (a + b) = a / (a + b)" by (simp add: field_simps)
  then have "Beta a b * (1 - b / (a + b)) = Beta a b * (a / (a + b))"
    by (simp only:)
  then have "Beta a b - Beta a b * (b / (a + b)) = Beta a b * (a / (a + b))"
    by (simp only: right_diff_distrib mult_1_right)
  then show ?thesis
    by (simp add: Beta_shift [OF assms] Beta_shift_first [OF assms])
qed

lemma beta_factor_antitone:
  assumes "0 < a" "0 < b" "b \<le> c" "1 \<le> k"
  shows "beta_factor a c k \<le> beta_factor a b k"
proof -
  have k: "0 < real k" using assms(4) by simp
  have "(real k + a + c) * (real k + b) \<le> (real k + a + b) * (real k + c)"
    using assms(1,3) by (simp add: algebra_simps)
  then have "(real k + a + c) / (real k + c) \<le> (real k + a + b) / (real k + b)"
    using assms k by (simp add: field_simps)
  then have "real k / (real k + a) * ((real k + a + c) / (real k + c))
      \<le> real k / (real k + a) * ((real k + a + b) / (real k + b))"
    using assms(1) k by (intro mult_left_mono) simp_all
  then show ?thesis by (simp add: beta_factor_def)
qed

lemma beta_prod_antitone:
  assumes "0 < a" "0 < b" "b \<le> c"
  shows "beta_prod a c n \<le> beta_prod a b n"
proof -
  have c: "0 < c" using assms by simp
  have "(\<Prod>k = 1..n. beta_factor a c k) \<le> (\<Prod>k = 1..n. beta_factor a b k)"
    using beta_factor_bounds(1) [OF assms(1) c] beta_factor_antitone [OF assms]
    by (intro prod_mono) (simp add: less_imp_le)
  moreover have "(a + c) / (a * c) \<le> (a + b) / (a * b)"
    using assms c by (simp add: field_simps)
  moreover have "0 \<le> (\<Prod>k = 1..n. beta_factor a c k)"
    using beta_factor_bounds(1) [OF assms(1) c] by (intro prod_nonneg) (simp add: less_imp_le)
  moreover have "0 \<le> (a + b) / (a * b)"
    using assms by simp
  ultimately show ?thesis
    unfolding beta_prod_def by (intro mult_mono) simp_all
qed

lemma Beta_antitone:
  assumes "0 < a" "0 < b" "b \<le> c"
  shows "Beta a c \<le> Beta a b"
proof -
  have c: "0 < c" using assms by simp
  show ?thesis
    by (rule LIMSEQ_le [OF beta_prod_tendsto [OF assms(1) c] beta_prod_tendsto [OF assms(1,2)]])
      (simp add: beta_prod_antitone [OF assms])
qed

lemma beta_one_key:
  fixes x b :: real
  assumes "0 < x" "0 < x + b"
  shows "(x + b) / x * (x * (x + 1 + b) / ((x + 1) * (x + b))) = (x + 1 + b) / (x + 1)"
proof -
  have nz: "x * ((x + 1) * (x + b)) \<noteq> 0" "x + 1 \<noteq> 0"
    using assms by simp_all
  have "((x + b) * (x * (x + 1 + b))) / (x * ((x + 1) * (x + b))) = (x + 1 + b) / (x + 1)"
    by (subst frac_eq_eq [OF nz]) (simp add: algebra_simps)
  then show ?thesis by (simp only: times_divide_times_eq)
qed

lemma beta_prod_one:
  assumes "- 1 < b" "b \<noteq> 0"
  shows "beta_prod 1 b n = (1 / b) * ((real n + 1 + b) / (real n + 1))"
proof (induction n)
  case 0
  from assms show ?case by (simp add: beta_prod_def add.commute)
next
  case (Suc n)
  have e: "real (Suc n) = real n + 1" by simp
  have "(real n + 1 + b) / (real n + 1) * beta_factor 1 b (Suc n)
      = (real n + 1 + 1 + b) / (real n + 1 + 1)"
    unfolding beta_factor_def e
    by (rule beta_one_key) (use assms in simp_all)
  then have "(1 / b) * ((real n + 1 + b) / (real n + 1)) * beta_factor 1 b (Suc n)
      = (1 / b) * ((real (Suc n) + 1 + b) / (real (Suc n) + 1))"
    by (simp only: e mult.assoc)
  then show ?case
    by (simp only: beta_prod_Suc Suc.IH)
qed

lemma Beta_one:
  assumes "- 1 < b" "b \<noteq> 0"
  shows "Beta 1 b = 1 / b"
proof -
  have "(\<lambda>n. b * inverse (real (Suc n))) \<longlonglongrightarrow> b * 0"
    by (intro tendsto_mult tendsto_const LIMSEQ_inverse_real_of_nat)
  then have "(\<lambda>n. 1 + b * inverse (real (Suc n))) \<longlonglongrightarrow> 1 + b * 0"
    by (intro tendsto_add tendsto_const)
  moreover have "(real n + 1 + b) / (real n + 1) = 1 + b * inverse (real (Suc n))" for n
  proof -
    have "real n + 1 \<noteq> 0"
      by (simp add: add_nonneg_pos [THEN less_imp_neq [THEN not_sym]])
    then have "(real n + 1 + b) / (real n + 1) = 1 + b / (real n + 1)"
      by (simp add: add_divide_distrib)
    then show ?thesis by (simp add: divide_inverse add.commute)
  qed
  ultimately have "(\<lambda>n. (real n + 1 + b) / (real n + 1)) \<longlonglongrightarrow> 1"
    by simp
  then have "(\<lambda>n. (1 / b) * ((real n + 1 + b) / (real n + 1))) \<longlonglongrightarrow> (1 / b) * 1"
    by (intro tendsto_mult tendsto_const)
  moreover have "beta_prod 1 b = (\<lambda>n. (1 / b) * ((real n + 1 + b) / (real n + 1)))"
    by (rule ext) (rule beta_prod_one [OF assms])
  ultimately have "beta_prod 1 b \<longlonglongrightarrow> 1 / b"
    by (simp only: mult_1_right)
  then show ?thesis by (simp add: Beta_def limI)
qed

lemma Beta_Suc_pos:
  assumes "0 < b"
  shows "0 < Beta (real (Suc m)) b"
proof (induction m)
  case 0
  from assms show ?case by (simp add: Beta_one)
next
  case (Suc m)
  have "Beta (real (Suc m) + 1) b = Beta (real (Suc m)) b * (real (Suc m) / (real (Suc m) + b))"
    using assms by (intro Beta_shift_first) simp_all
  moreover have "0 < real (Suc m) / (real (Suc m) + b)"
    using assms by (intro divide_pos_pos add_pos_pos) simp_all
  ultimately have "0 < Beta (real (Suc m) + 1) b"
    using Suc.IH by (simp only: mult_pos_pos)
  moreover have "real (Suc (Suc m)) = real (Suc m) + 1" by simp
  ultimately show ?case by (simp only:)
qed

lemma Beta_pos:
  assumes "0 < a" "0 < b"
  shows "0 < Beta a b"
proof -
  obtain m :: nat where "a \<le> real m"
    using real_arch_simple by blast
  then have le: "a \<le> real (Suc m)" by simp
  have "Beta b (real (Suc m)) \<le> Beta b a"
    using assms le by (intro Beta_antitone)
  then have "Beta (real (Suc m)) b \<le> Beta a b"
    by (simp add: Beta_commute [of b])
  with Beta_Suc_pos [OF assms(2), of m] show ?thesis by simp
qed

lemma Beta_two:
  assumes "0 < b"
  shows "Beta 2 b = 1 / (b * (b + 1))"
proof -
  have "Beta (1 + 1) b = Beta 1 b - Beta 1 (b + 1)"
    using assms by (intro Beta_step) simp_all
  also have "\<dots> = 1 / b - 1 / (b + 1)"
    using assms by (simp add: Beta_one)
  also have "\<dots> = 1 / (b * (b + 1))"
    using assms by (simp add: field_simps)
  finally show ?thesis by simp
qed

lemma Beta_pos_at:
  assumes "0 < a"
  shows "beta_pos_at (\<lambda>a b. Fin (Beta a b)) a"
  using assms by (simp add: beta_pos_at_def fin_pos_def Beta_pos)

lemma Beta_step_at:
  assumes "0 < a"
  shows "beta_step_at (\<lambda>a b. Fin (Beta a b)) a"
  using assms by (simp add: beta_step_at_def val_def Beta_step)

lemma Beta_antitone_at:
  assumes "0 < a"
  shows "beta_antitone_at (\<lambda>a b. Fin (Beta a b)) a"
  using assms by (simp add: beta_antitone_at_def val_def Beta_antitone)

lemma beta_closed_Suc:
  assumes "0 < b"
  shows "beta_closed (real (Suc n)) b = Fin (fact n / pochhammer b (Suc n))"
proof -
  have "is_pos_int (real (Suc n))"
    unfolding is_pos_int_def by (simp del: of_nat_Suc)
  moreover have "nat \<lfloor>real (Suc n)\<rfloor> = Suc n"
    by (simp del: of_nat_Suc)
  moreover have "pochhammer b (Suc n) \<noteq> 0"
    using pochhammer_pos [OF assms, of "Suc n"] by simp
  ultimately show ?thesis
    by (simp add: beta_closed_def del: of_nat_Suc)
qed

lemma Beta_Suc:
  assumes "0 < b"
  shows "Beta (real (Suc n)) b = fact n / pochhammer b (Suc n)"
proof (induction n)
  case 0
  from assms show ?case by (simp add: Beta_one)
next
  case (Suc n)
  have e: "real (Suc (Suc n)) = real (Suc n) + 1" by simp
  have nz: "pochhammer b (Suc n) \<noteq> 0" "real (Suc n) + b \<noteq> 0"
    using pochhammer_pos [OF assms, of "Suc n"] assms
    by (simp_all add: add_pos_pos [THEN less_imp_neq [THEN not_sym]] del: of_nat_Suc)
  have "Beta (real (Suc n) + 1) b = Beta (real (Suc n)) b * (real (Suc n) / (real (Suc n) + b))"
    using assms by (intro Beta_shift_first) simp_all
  also have "\<dots> = fact n / pochhammer b (Suc n) * (real (Suc n) / (real (Suc n) + b))"
    by (simp only: Suc.IH)
  also have "\<dots> = fact (Suc n) / pochhammer b (Suc (Suc n))"
    by (simp add: pochhammer_Suc [of b "Suc n"] add.commute [of b] del: of_nat_Suc)
  finally show ?case by (simp only: e)
qed

lemma beta_closed_Beta:
  assumes "0 < b"
  shows "beta_closed (real (Suc n)) b = Fin (Beta (real (Suc n)) b)"
  by (simp only: beta_closed_Suc [OF assms] Beta_Suc [OF assms])

lemma beta_closed_half_Beta:
  shows "beta_closed (1 / 2) 1 = Fin (Beta (1 / 2) 1)"
    and "beta_closed (- (1 / 2)) 1 = Fin (Beta (- (1 / 2)) 1)"
  by (simp_all add: beta_closed_half Beta_commute [of _ 1] Beta_one)

subsection \<open>The extended likelihood at zero\<close>

lemma np_add_not_fin:
  assumes "x \<notin> range Fin \<or> y \<notin> range Fin"
  shows "np_add x y \<notin> range Fin"
  using assms by (cases x; cases y) auto

lemma foldl_np_add_not_fin:
  assumes "a \<notin> range Fin"
  shows "foldl np_add a xs \<notin> range Fin"
  using assms by (induction xs arbitrary: a) (simp_all add: np_add_not_fin)

lemma py_sum_not_fin:
  assumes "x \<in> set xs" "x \<notin> range Fin"
  shows "py_sum xs \<notin> range Fin"
proof -
  have "foldl np_add a xs \<notin> range Fin" for a
    using assms(1)
  proof (induction xs arbitrary: a)
    case Nil
    then show ?case by simp
  next
    case (Cons y ys)
    show ?case
    proof (cases "y = x")
      case True
      with assms(2) have "np_add a y \<notin> range Fin" by (simp add: np_add_not_fin)
      then show ?thesis by (simp add: foldl_np_add_not_fin)
    next
      case False
      with Cons.prems have "x \<in> set ys" by simp
      then show ?thesis by (simp add: Cons.IH)
    qed
  qed
  then show ?thesis by (simp add: py_sum_def)
qed

lemma np_neg_not_fin: "x \<notin> range Fin \<Longrightarrow> np_neg x \<notin> range Fin"
  by (cases x) auto

lemma cumA_zero: "1 \<le> t \<Longrightarrow> 1 + cumA 0 t = of_int t"
proof -
  assume "1 \<le> t"
  have "sum_list (map (\<lambda>i::int. 1::real) [1..t - 1]) = of_int (t - 1)"
    using \<open>1 \<le> t\<close> by (simp add: sum_list_triv)
  then show ?thesis by (simp add: cumA_def)
qed

lemma NLogL_Alpha_zero_not_finite:
  assumes "0 < \<delta>" "valid_table Data" "beta_pos_at beta \<gamma>"
  shows "NLogL_Alpha beta (\<gamma>, \<delta>, 0) Data \<notin> range Fin"
proof -
  let ?summand = "\<lambda>r. np_add
         (np_mul (Fin (Cust_Lost r))
            (np_log (np_div (np_sub (beta \<gamma> (\<delta> + (1 + cumA 0 (Period r))))
                                    (beta \<gamma> (\<delta> + cumB 0 (Period r))))
                            (beta \<gamma> \<delta>))))
         (np_mul (np_mul (Fin (of_int (Final_Period r))) (Fin (Remaining r)))
            (np_log (np_div (beta \<gamma> (\<delta> + cumB 0 (Period r))) (beta \<gamma> \<delta>))))"
  from assms(2) have "Data \<noteq> []" by (simp add: valid_table_def)
  then obtain r where r: "r \<in> set Data" by (cases Data) auto
  with assms(2) have t: "1 \<le> Period r" by (rule valid_table_Period)
  then have pos: "0 < \<delta> + of_int (Period r)" using assms(1) by simp
  have b: "beta \<gamma> (\<delta> + of_int (Period r)) = Fin (val (beta \<gamma> (\<delta> + of_int (Period r))))"
    by (rule beta_pos_atD(1) [OF assms(3) pos])
  have b0: "beta \<gamma> \<delta> = Fin (val (beta \<gamma> \<delta>))" "0 < val (beta \<gamma> \<delta>)"
    by (rule beta_pos_atD [OF assms(3,1)])+
  have "np_sub (beta \<gamma> (\<delta> + of_int (Period r))) (beta \<gamma> (\<delta> + of_int (Period r))) = Fin 0"
    by (subst (1 2) b) (simp add: np_sub_def)
  moreover have "np_div (Fin 0) (beta \<gamma> \<delta>) = Fin 0"
    using b0(2) by (subst b0(1)) simp
  ultimately have "np_log (np_div (np_sub (beta \<gamma> (\<delta> + (1 + cumA 0 (Period r))))
                                    (beta \<gamma> (\<delta> + cumB 0 (Period r))))
                            (beta \<gamma> \<delta>)) = NInf"
    using t by (simp add: cumA_zero cumB_zero)
  then have "np_mul (Fin (Cust_Lost r))
            (np_log (np_div (np_sub (beta \<gamma> (\<delta> + (1 + cumA 0 (Period r))))
                                    (beta \<gamma> (\<delta> + cumB 0 (Period r))))
                            (beta \<gamma> \<delta>))) \<notin> range Fin"
    by (auto simp: signed_inf_def)
  then have "?summand r \<notin> range Fin"
    by (simp add: np_add_not_fin)
  moreover have "?summand r \<in> set (map ?summand Data)"
    using r by simp
  ultimately have "py_sum (map ?summand Data) \<notin> range Fin"
    by (rule py_sum_not_fin [rotated])
  then have "np_neg (py_sum (map ?summand Data)) \<notin> range Fin"
    by (rule np_neg_not_fin)
  then show ?thesis
    unfolding NLogL_Alpha_rows [OF assms(2)] .
qed

subsection \<open>The forecast of the base notebook with finite Beta values\<close>

lemma zip_zip_map:
  "zip xs (zip (map f ys) (map g ys)) = map (\<lambda>(x, y). (x, f y, g y)) (zip xs ys)"
  by (induction xs ys rule: list_induct2') simp_all

lemma np_div_val:
  assumes "fin_pos u" "fin_pos w"
  shows "np_div u w = Fin (val u / val w)"
  using assms by (cases u; cases w) (simp_all add: fin_pos_def val_def)

lemma ExtrapolateBG_fin_rows:
  assumes "0 < \<delta>" "beta_pos_at beta \<gamma>" "beta_pos_at beta (\<gamma> + 1)"
  shows "ExtrapolateBG beta N \<gamma> \<delta> H =
     map (\<lambda>(t, c). \<lparr> Out_Index = t, Out_Cust_Lost = Fin (c * N), Out_Remaining = Fin (N - c * N) \<rparr>)
       (zip [1..H]
          (cumsum (map (\<lambda>t. val (beta (\<gamma> + 1) (\<delta> + of_int t - 1)) / val (beta \<gamma> \<delta>)) [1..H])))"
proof -
  let ?q = "\<lambda>t::int. val (beta (\<gamma> + 1) (\<delta> + of_int t - 1)) / val (beta \<gamma> \<delta>)"
  have "np_div (beta (\<gamma> + 1) (\<delta> + of_int t - 1)) (beta \<gamma> \<delta>) = Fin (?q t)"
    if "t \<in> set [1..H]" for t
  proof -
    from that assms(1) have pos: "0 < \<delta> + of_int t - 1" by simp
    show ?thesis
      using assms pos by (intro np_div_val) (simp_all add: beta_pos_at_def)
  qed
  then have "map (\<lambda>t. np_div (beta (\<gamma> + 1) (\<delta> + of_int t - 1)) (beta \<gamma> \<delta>)) [1..H]
      = map Fin (map ?q [1..H])"
    by simp
  then have h: "pd_cumsum (map (\<lambda>t. np_div (beta (\<gamma> + 1) (\<delta> + of_int t - 1)) (beta \<gamma> \<delta>)) [1..H])
      = map Fin (cumsum (map ?q [1..H]))"
    by (simp only: pd_cumsum_def pd_cumsum_from_Fin cumsum_def)
  have lost: "map (\<lambda>c. np_mul c (Fin N)) (map Fin cs) = map (\<lambda>c. Fin (c * N)) cs" for cs
    by simp
  have rem: "map (\<lambda>l. np_sub (Fin N) l) (map (\<lambda>c. Fin (c * N)) cs) = map (\<lambda>c. Fin (N - c * N)) cs"
    for cs
    by (simp add: np_sub_def)
  show ?thesis
    unfolding ExtrapolateBG_def Let_def h lost rem zip_zip_map
    by (simp add: case_prod_unfold)
qed

section \<open>Properties\<close>

text \<open>
  C8. The raw input \<open>[1000, 800, 275, 250, 220]\<close> gives the table of the periods 1 to 4
  with remaining \<open>[800, 275, 250, 220]\<close>, lost \<open>[200, 525, 25, 30]\<close>, the final-period
  flag set in the last row only, and the initial population 1000.
\<close>

theorem FormatBGData_scenario:
  "FormatBGData [1000, 800, 275, 250, 220] =
     [\<lparr> Remaining = 800, Cust_Lost = 200, Period = 1, Final_Period = 0 \<rparr>,
      \<lparr> Remaining = 275, Cust_Lost = 525, Period = 2, Final_Period = 0 \<rparr>,
      \<lparr> Remaining = 250, Cust_Lost = 25, Period = 3, Final_Period = 0 \<rparr>,
      \<lparr> Remaining = 220, Cust_Lost = 30, Period = 4, Final_Period = 1 \<rparr>]
   \<and> usage_Initial_Pop (FormatBGData [1000, 800, 275, 250, 220]) = Inr 1000"
  by (simp add: FormatBGData_def usage_Initial_Pop_def fillna_def upt_conv_Cons)

text \<open>
  C2. For every survival table with final period \<open>T\<close> and all \<open>\<gamma> > 0\<close>, \<open>\<delta> > 0\<close>, the base
  negative log-likelihood \<^verbatim>\<open>NLogL\<close> is
  \<open>- (\<Sum>\<^sub>t lost[t] * log (B(\<gamma> + 1, \<delta> + t - 1) / B(\<gamma>, \<delta>)) + remaining[T] * log (B(\<gamma>, \<delta> + T) / B(\<gamma>, \<delta>)))\<close>,
  the second term entering at the final period only. \<open>B\<close> is the value of \<^verbatim>\<open>special.beta\<close>,
  finite and positive at positive arguments.
\<close>

theorem NLogL_base_formula:
  assumes "0 < \<gamma>" "0 < \<delta>" "valid_table Data"
    and "beta_pos_at beta \<gamma>" "beta_pos_at beta (\<gamma> + 1)"
  shows "NLogL beta (\<gamma>, \<delta>) Data = Fin (base_formula (\<lambda>a b. val (beta a b)) \<gamma> \<delta> Data)"
proof -
  let ?B = "\<lambda>a b. val (beta a b)"
  let ?churn = "\<lambda>r. ln (?B (\<gamma> + 1) (\<delta> + of_int (Period r) - 1) / ?B \<gamma> \<delta>)"
  let ?alive = "\<lambda>r. ln (?B \<gamma> (\<delta> + of_int (Period r)) / ?B \<gamma> \<delta>)"
  have churn: "np_log (np_div (beta (\<gamma> + 1) (\<delta> + of_int (Period r) - 1)) (beta \<gamma> \<delta>))
      = Fin (?churn r)" if "r \<in> set Data" for r
  proof -
    from that assms(3) have "1 \<le> Period r" by (rule valid_table_Period [rotated])
    with assms(2) have "0 < \<delta> + of_int (Period r) - 1" by simp
    with assms(2,4,5) show ?thesis
      by (intro np_log_ratio) (simp_all add: beta_pos_at_def)
  qed
  have alive: "np_log (np_div (beta \<gamma> (\<delta> + of_int (Period r))) (beta \<gamma> \<delta>))
      = Fin (?alive r)" if "r \<in> set Data" for r
  proof -
    from that assms(3) have "1 \<le> Period r" by (rule valid_table_Period [rotated])
    with assms(2) have "0 < \<delta> + of_int (Period r)" by simp
    with assms(2,4) show ?thesis
      by (intro np_log_ratio) (simp_all add: beta_pos_at_def)
  qed
  have "NLogL beta (\<gamma>, \<delta>) Data
      = np_neg (py_sum (map (\<lambda>r. Fin (Cust_Lost r * ?churn r
            + of_int (Final_Period r) * (Remaining r * ?alive r))) Data))"
    unfolding NLogL_def by (simp add: churn alive cong: map_cong)
  also have "\<dots> = Fin (- (\<Sum>r\<leftarrow>Data. Cust_Lost r * ?churn r
            + of_int (Final_Period r) * (Remaining r * ?alive r)))"
    by (subst py_sum_Fin [where g = "\<lambda>r. Cust_Lost r * ?churn r
            + of_int (Final_Period r) * (Remaining r * ?alive r)"]) simp_all
  also have "(\<Sum>r\<leftarrow>Data. Cust_Lost r * ?churn r
            + of_int (Final_Period r) * (Remaining r * ?alive r))
      = (\<Sum>r\<leftarrow>Data. Cust_Lost r * ?churn r)
        + (\<Sum>r\<leftarrow>Data. of_int (Final_Period r) * (Remaining r * ?alive r))"
    by (simp add: sum_list_addf)
  also have "(\<Sum>r\<leftarrow>Data. of_int (Final_Period r) * (Remaining r * ?alive r))
      = Remaining (last Data) * ?alive (last Data)"
    by (rule valid_table_flag_sum [OF assms(3)])
  finally show ?thesis
    by (simp add: base_formula_def)
qed

theorem NLogL_base_formula_witness:
  "(0::real) < 1 \<and> valid_table (FormatBGData [1000, 800, 275, 250, 220])
   \<and> beta_pos_at beta_closed 1 \<and> beta_pos_at beta_closed (1 + 1)
   \<and> NLogL beta_closed (1, 1) (FormatBGData [1000, 800, 275, 250, 220])
       = Fin (base_formula (\<lambda>a b. val (beta_closed a b)) 1 1
                (FormatBGData [1000, 800, 275, 250, 220]))"
proof -
  have v: "valid_table (FormatBGData [1000, 800, 275, 250, 220])"
    by (rule valid_table_FormatBGData) simp
  have p2: "beta_pos_at beta_closed (1 + 1)"
    using beta_closed_pos_2 by simp
  show ?thesis
    using NLogL_base_formula [OF zero_less_one zero_less_one v beta_closed_pos_1 p2]
      v beta_closed_pos_1 p2 by simp
qed

text \<open>
  C4. For all \<open>\<gamma> > 0\<close>, \<open>\<delta> > 0\<close>, every initial population \<open>N\<close> and every horizon \<open>H\<close>, the
  base-model projection returns \<open>remaining[t] = N * B(\<gamma>, \<delta> + t) / B(\<gamma>, \<delta>)\<close> for every
  period \<open>t\<close> in \<open>1..H\<close>: \<^verbatim>\<open>ExtrapolateBG\<close> of the base notebook, and \<^verbatim>\<open>ExtrapolateBG\<close> of
  the loyalty notebook at \<open>\<alpha> = 0\<close>. \<open>B\<close> is the value of \<^verbatim>\<open>special.beta\<close>, finite and
  positive; the base notebook's version sums the churn probabilities
  \<open>B(\<gamma> + 1, \<delta> + t - 1) / B(\<gamma>, \<delta>)\<close> and needs \<open>B(\<gamma> + 1, b) = B(\<gamma>, b) - B(\<gamma>, b + 1)\<close>.
\<close>

theorem ExtrapolateBG_base_remaining:
  assumes "0 < \<gamma>" "0 < \<delta>" "beta_pos_at beta \<gamma>"
  shows "(beta_step_at beta \<gamma> \<longrightarrow>
           map (\<lambda>r. (Out_Index r, Out_Remaining r)) (ExtrapolateBG beta N \<gamma> \<delta> H)
             = map (\<lambda>t. (t, Fin (N * val (beta \<gamma> (\<delta> + of_int t)) / val (beta \<gamma> \<delta>)))) [1..H])
       \<and> ExtrapolateBG_Alpha beta N \<gamma> \<delta> 0 H
           = map (\<lambda>t. (t, Fin (N * val (beta \<gamma> (\<delta> + of_int t)) / val (beta \<gamma> \<delta>)))) [1..H]"
proof (intro conjI impI)
  assume "beta_step_at beta \<gamma>"
  then show "map (\<lambda>r. (Out_Index r, Out_Remaining r)) (ExtrapolateBG beta N \<gamma> \<delta> H)
      = map (\<lambda>t. (t, Fin (N * val (beta \<gamma> (\<delta> + of_int t)) / val (beta \<gamma> \<delta>)))) [1..H]"
    by (simp add: ExtrapolateBG_rows [OF assms] o_def)
next
  have "np_mul (Fin N) (np_div (beta \<gamma> (\<delta> + cumB 0 t)) (beta \<gamma> \<delta>))
      = Fin (N * val (beta \<gamma> (\<delta> + of_int t)) / val (beta \<gamma> \<delta>))" if "t \<in> set [1..H]" for t
  proof -
    from that have t: "cumB 0 t = of_int t" by (simp add: cumB_zero)
    from that assms(2) have "0 < \<delta> + of_int t" by simp
    then show ?thesis
      using np_mul_div_beta [OF assms(3) _ assms(2)] by (simp add: t)
  qed
  then show "ExtrapolateBG_Alpha beta N \<gamma> \<delta> 0 H
      = map (\<lambda>t. (t, Fin (N * val (beta \<gamma> (\<delta> + of_int t)) / val (beta \<gamma> \<delta>)))) [1..H]"
    by (simp add: ExtrapolateBG_Alpha_rows)
qed

theorem ExtrapolateBG_base_remaining_witness:
  "(0::real) < 1 \<and> beta_pos_at beta_closed 1 \<and> beta_step_at beta_closed 1
   \<and> map (\<lambda>r. (Out_Index r, Out_Remaining r)) (ExtrapolateBG beta_closed 1000 1 1 3)
       = [(1, Fin 500), (2, Fin (1000 / 3)), (3, Fin 250)]
   \<and> ExtrapolateBG_Alpha beta_closed 1000 1 1 0 3
       = [(1, Fin 500), (2, Fin (1000 / 3)), (3, Fin 250)]"
  using ExtrapolateBG_base_remaining
    [OF zero_less_one zero_less_one beta_closed_pos_1, of 1000 3]
    beta_closed_pos_1 beta_closed_step_1
  by (simp add: upto_rec1 beta_closed_1 val_def)

text \<open>
  C5, in exact arithmetic. For all \<open>\<gamma> > 0\<close>, \<open>\<delta> > 0\<close>, every \<open>\<alpha>\<close>, every initial population
  \<open>N \<ge> 0\<close> and every horizon \<open>H\<close>, both versions of \<^verbatim>\<open>ExtrapolateBG\<close> return the periods
  \<open>1, \<dots>, H\<close> with a remaining column that does not increase and stays between \<open>0\<close> and
  \<open>N\<close>, when the sums, products and differences are those of the real numbers. The code
  computes them in float64, and there the lower bound is lost in the base notebook:
  \<^verbatim>\<open>ExtrapolateBG(1000, 23, 3, 44)\<close> adds 44 churn fractions whose exact sum is just below
  \<open>1\<close>; with every value of \<^verbatim>\<open>special.beta\<close> rounded to the nearest float64 the running sum
  ends at \<^verbatim>\<open>1.0000000000000002\<close>, the lost column at \<^verbatim>\<open>1000.0000000000002\<close> and the
  remaining column at \<^verbatim>\<open>-2.27e-13\<close>. The forecast of the loyalty notebook multiplies
  \<open>N\<close> by a quotient of two Beta values and subtracts nothing. The lemma shows that
  rounding alone takes the base notebook's forecast out of the bounds.
\<close>

lemma ExtrapolateBG_bounds_exact:
  assumes "0 < \<gamma>" "0 < \<delta>" "0 \<le> N"
    and "beta_pos_at beta \<gamma>" "beta_antitone_at beta \<gamma>"
  shows "map fst (ExtrapolateBG_Alpha beta N \<gamma> \<delta> \<alpha> H) = [1..H]
       \<and> projection_ok N (map snd (ExtrapolateBG_Alpha beta N \<gamma> \<delta> \<alpha> H))
       \<and> (beta_step_at beta \<gamma> \<longrightarrow>
            map Out_Index (ExtrapolateBG beta N \<gamma> \<delta> H) = [1..H]
            \<and> projection_ok N (map Out_Remaining (ExtrapolateBG beta N \<gamma> \<delta> H)))"
proof (intro conjI impI)
  show "map fst (ExtrapolateBG_Alpha beta N \<gamma> \<delta> \<alpha> H) = [1..H]"
    by (simp add: ExtrapolateBG_Alpha_rows o_def)
  have "np_mul (Fin N) (np_div (beta \<gamma> (\<delta> + cumB \<alpha> t)) (beta \<gamma> \<delta>))
      = Fin (N * val (beta \<gamma> (\<delta> + cumB \<alpha> t)) / val (beta \<gamma> \<delta>))" for t
  proof -
    have "0 < \<delta> + cumB \<alpha> t" using assms(2) cumB_nonneg [of \<alpha> t] by simp
    then show ?thesis
      using np_mul_div_beta [OF assms(4) _ assms(2)] by simp
  qed
  then have "map snd (ExtrapolateBG_Alpha beta N \<gamma> \<delta> \<alpha> H)
      = map (\<lambda>t. Fin (N * val (beta \<gamma> (\<delta> + cumB \<alpha> t)) / val (beta \<gamma> \<delta>))) [1..H]"
    by (simp add: ExtrapolateBG_Alpha_rows o_def)
  then show "projection_ok N (map snd (ExtrapolateBG_Alpha beta N \<gamma> \<delta> \<alpha> H))"
    using projection_ok_map [OF assms(2,3,4,5), of "cumB \<alpha>" H]
    by (simp add: cumB_mono cumB_nonneg)
next
  assume step: "beta_step_at beta \<gamma>"
  show "map Out_Index (ExtrapolateBG beta N \<gamma> \<delta> H) = [1..H]"
    by (simp add: ExtrapolateBG_rows [OF assms(1,2,4) step] o_def)
  have "map Out_Remaining (ExtrapolateBG beta N \<gamma> \<delta> H)
      = map (\<lambda>t. Fin (N * val (beta \<gamma> (\<delta> + of_int t)) / val (beta \<gamma> \<delta>))) [1..H]"
    by (simp add: ExtrapolateBG_rows [OF assms(1,2,4) step] o_def)
  then show "projection_ok N (map Out_Remaining (ExtrapolateBG beta N \<gamma> \<delta> H))"
    using projection_ok_map [OF assms(2,3,4,5), of "of_int" H]
    by simp
qed

text \<open>
  C9, as the code has it. In the forecast of the base notebook the lost column is the
  cumulative loss: for every period \<open>t\<close> in \<open>1..H\<close>,
  \<open>lost[t] = N * (\<Sum>\<^sub>s B(\<gamma> + 1, \<delta> + s - 1) / B(\<gamma>, \<delta>))\<close>, the sum over \<open>s = 1, \<dots>, t\<close>, with \<open>N\<close>
  the initial population, and \<open>remaining[t] = N - lost[t]\<close>. So
  \<open>lost[1] = N - remaining[1]\<close>, and from one period to the next the lost column grows by
  what the remaining column falls: \<open>lost[t] - lost[t - 1] = remaining[t - 1] - remaining[t]\<close>.
  (The forecast of the loyalty notebook has no lost column.) The values of
  \<^verbatim>\<open>special.beta\<close> are finite and positive.
\<close>

theorem ExtrapolateBG_lost_cumulative:
  assumes "0 < \<delta>" "beta_pos_at beta \<gamma>" "beta_pos_at beta (\<gamma> + 1)"
    and "out = ExtrapolateBG beta N \<gamma> \<delta> H"
  shows "out = map (\<lambda>t. \<lparr> Out_Index = t,
                  Out_Cust_Lost = Fin (cum_churn (\<lambda>a b. val (beta a b)) \<gamma> \<delta> t * N),
                  Out_Remaining = Fin (N - cum_churn (\<lambda>a b. val (beta a b)) \<gamma> \<delta> t * N) \<rparr>)
               [1..H]
       \<and> (\<forall>k. Suc k < length out \<longrightarrow>
             val (Out_Cust_Lost (out ! Suc k)) - val (Out_Cust_Lost (out ! k))
               = val (Out_Remaining (out ! k)) - val (Out_Remaining (out ! Suc k)))"
proof -
  let ?c = "cum_churn (\<lambda>a b. val (beta a b)) \<gamma> \<delta>"
  let ?row = "\<lambda>t. \<lparr> Out_Index = t, Out_Cust_Lost = Fin (?c t * N),
                     Out_Remaining = Fin (N - ?c t * N) \<rparr>"
  have "cumsum (map (\<lambda>t. val (beta (\<gamma> + 1) (\<delta> + of_int t - 1)) / val (beta \<gamma> \<delta>)) [1..H])
      = map ?c [1..H]"
    by (simp add: cumsum_def cumsum_from_upto cum_churn_def)
  then have rows: "out = map ?row [1..H]"
    unfolding assms(4) ExtrapolateBG_fin_rows [OF assms(1-3)]
    by (simp add: zip_id_map o_def)
  have "val (Out_Cust_Lost (out ! Suc k)) - val (Out_Cust_Lost (out ! k))
      = val (Out_Remaining (out ! k)) - val (Out_Remaining (out ! Suc k))"
    if "Suc k < length out" for k
  proof -
    from that have "k < length [1..H]" "Suc k < length [1..H]"
      by (simp_all add: rows)
    then show ?thesis
      by (simp add: rows val_def)
  qed
  with rows show ?thesis by blast
qed

theorem ExtrapolateBG_lost_cumulative_witness:
  "(0::real) < 1 \<and> beta_pos_at beta_closed 1 \<and> beta_pos_at beta_closed (1 + 1)
   \<and> ExtrapolateBG beta_closed 1000 1 1 3
       = [\<lparr> Out_Index = 1, Out_Cust_Lost = Fin 500, Out_Remaining = Fin 500 \<rparr>,
          \<lparr> Out_Index = 2, Out_Cust_Lost = Fin (2000 / 3), Out_Remaining = Fin (1000 / 3) \<rparr>,
          \<lparr> Out_Index = 3, Out_Cust_Lost = Fin 750, Out_Remaining = Fin 250 \<rparr>]
   \<and> Suc 1 < length (ExtrapolateBG beta_closed 1000 1 1 3)
   \<and> val (Out_Cust_Lost (ExtrapolateBG beta_closed 1000 1 1 3 ! Suc 1))
         - val (Out_Cust_Lost (ExtrapolateBG beta_closed 1000 1 1 3 ! 1))
       = val (Out_Remaining (ExtrapolateBG beta_closed 1000 1 1 3 ! 1))
         - val (Out_Remaining (ExtrapolateBG beta_closed 1000 1 1 3 ! Suc 1))"
proof -
  have p2: "beta_pos_at beta_closed (1 + 1)"
    using beta_closed_pos_2 by simp
  from ExtrapolateBG_lost_cumulative
    [OF zero_less_one beta_closed_pos_1 p2 refl, of 1000 3]
  have rows: "ExtrapolateBG beta_closed 1000 1 1 3
      = map (\<lambda>t. \<lparr> Out_Index = t,
                  Out_Cust_Lost = Fin (cum_churn (\<lambda>a b. val (beta_closed a b)) 1 1 t * 1000),
                  Out_Remaining = Fin (1000 - cum_churn (\<lambda>a b. val (beta_closed a b)) 1 1 t * 1000) \<rparr>)
          [1..3]"
    and steps: "\<forall>k. Suc k < length (ExtrapolateBG beta_closed 1000 1 1 3) \<longrightarrow>
         val (Out_Cust_Lost (ExtrapolateBG beta_closed 1000 1 1 3 ! Suc k))
           - val (Out_Cust_Lost (ExtrapolateBG beta_closed 1000 1 1 3 ! k))
         = val (Out_Remaining (ExtrapolateBG beta_closed 1000 1 1 3 ! k))
           - val (Out_Remaining (ExtrapolateBG beta_closed 1000 1 1 3 ! Suc k))"
    by blast+
  have vals: "ExtrapolateBG beta_closed 1000 1 1 3
       = [\<lparr> Out_Index = 1, Out_Cust_Lost = Fin 500, Out_Remaining = Fin 500 \<rparr>,
          \<lparr> Out_Index = 2, Out_Cust_Lost = Fin (2000 / 3), Out_Remaining = Fin (1000 / 3) \<rparr>,
          \<lparr> Out_Index = 3, Out_Cust_Lost = Fin 750, Out_Remaining = Fin 250 \<rparr>]"
    unfolding rows
    by (simp add: upto_rec1 cum_churn_def beta_closed_1 beta_closed_2 val_def)
  have len: "Suc 1 < length (ExtrapolateBG beta_closed 1000 1 1 3)"
    by (simp add: rows)
  from steps len have "val (Out_Cust_Lost (ExtrapolateBG beta_closed 1000 1 1 3 ! Suc 1))
         - val (Out_Cust_Lost (ExtrapolateBG beta_closed 1000 1 1 3 ! 1))
       = val (Out_Remaining (ExtrapolateBG beta_closed 1000 1 1 3 ! 1))
         - val (Out_Remaining (ExtrapolateBG beta_closed 1000 1 1 3 ! Suc 1))"
    by blast
  with vals len beta_closed_pos_1 p2 show ?thesis
    by (simp only: zero_less_one simp_thms)
qed

theorem ExtrapolateBG_lost_counterexample:
  "ExtrapolateBG beta_closed 1000 1 1 2
     = [\<lparr> Out_Index = 1, Out_Cust_Lost = Fin 500, Out_Remaining = Fin 500 \<rparr>,
        \<lparr> Out_Index = 2, Out_Cust_Lost = Fin (2000 / 3), Out_Remaining = Fin (1000 / 3) \<rparr>]
   \<and> Out_Cust_Lost (ExtrapolateBG beta_closed 1000 1 1 2 ! 1)
       \<noteq> np_sub (Out_Remaining (ExtrapolateBG beta_closed 1000 1 1 2 ! 0))
                 (Out_Remaining (ExtrapolateBG beta_closed 1000 1 1 2 ! 1))"
  by (simp add: ExtrapolateBG_def upto_rec1 beta_closed_1 beta_closed_2 pd_cumsum_def np_sub_def)

text \<open>
  C7, as the code has it. \<^verbatim>\<open>FormatBGData\<close> validates nothing and never fails with an input
  error: for every non-empty input sequence, also one with a single element or with a
  negative value, it returns the rows of the periods \<open>1, \<dots>, n - 1\<close>, with
  \<open>remaining[t] = raw[t]\<close>, \<open>lost[t] = raw[t - 1] - raw[t]\<close> and the final-period flag in the
  last row only. For every non-increasing sequence of non-negative numbers of length at
  least 2 the table is as the data model asks: the periods are \<open>1, \<dots>, n - 1\<close>, every
  loss is non-negative, and the remaining column is non-increasing and between \<open>0\<close> and
  the initial population \<open>raw[0]\<close>.
\<close>

theorem FormatBGData_no_validation:
  assumes "raw \<noteq> []"
  shows "FormatBGData raw =
           map (\<lambda>t. \<lparr> Remaining = raw ! t, Cust_Lost = raw ! (t - 1) - raw ! t,
                       Period = int t,
                       Final_Period = (if t = length raw - 1 then 1 else 0) \<rparr>) [1..<length raw]
       \<and> (2 \<le> length raw \<and> (\<forall>x \<in> set raw. 0 \<le> x) \<and> sorted (rev raw) \<longrightarrow>
            valid_table (FormatBGData raw)
            \<and> (\<forall>r \<in> set (FormatBGData raw).
                  0 \<le> Cust_Lost r \<and> 0 \<le> Remaining r \<and> Remaining r \<le> raw ! 0)
            \<and> sorted (rev (map Remaining (FormatBGData raw))))"
proof (intro conjI impI)
  show "FormatBGData raw =
           map (\<lambda>t. \<lparr> Remaining = raw ! t, Cust_Lost = raw ! (t - 1) - raw ! t,
                       Period = int t,
                       Final_Period = (if t = length raw - 1 then 1 else 0) \<rparr>) [1..<length raw]"
    by (rule FormatBGData_rows)
next
  assume ok: "2 \<le> length raw \<and> (\<forall>x \<in> set raw. 0 \<le> x) \<and> sorted (rev raw)"
  then have mono: "raw ! j \<le> raw ! i" if "i \<le> j" "j < length raw" for i j
    using that by (simp add: sorted_rev_iff_nth_mono)
  from ok show "valid_table (FormatBGData raw)"
    by (simp add: valid_table_FormatBGData)
  show "\<forall>r \<in> set (FormatBGData raw). 0 \<le> Cust_Lost r \<and> 0 \<le> Remaining r \<and> Remaining r \<le> raw ! 0"
    using ok mono by (auto simp: FormatBGData_rows)
  have "map Remaining (FormatBGData raw) = map (\<lambda>t. raw ! t) [1..<length raw]"
    by (simp add: FormatBGData_rows o_def)
  also have "\<dots> = tl raw"
    by (rule nth_equalityI) (simp_all add: nth_tl)
  finally show "sorted (rev (map Remaining (FormatBGData raw)))"
    using ok by (cases raw) (simp_all add: sorted_append)
qed

theorem FormatBGData_no_validation_witness:
  "[1000, 800, 275, 250, 220] \<noteq> ([] :: real list)
   \<and> 2 \<le> length [1000, 800, 275, 250, 220 :: real]
   \<and> list_all (\<lambda>x. 0 \<le> x) [1000, 800, 275, 250, 220 :: real]
   \<and> sorted (rev [1000, 800, 275, 250, 220 :: real])
   \<and> valid_table (FormatBGData [1000, 800, 275, 250, 220])
   \<and> list_all (\<lambda>r. 0 \<le> Cust_Lost r \<and> 0 \<le> Remaining r \<and> Remaining r \<le> 1000)
         (FormatBGData [1000, 800, 275, 250, 220])
   \<and> sorted (rev (map Remaining (FormatBGData [1000, 800, 275, 250, 220])))"
proof -
  have ne: "[1000, 800, 275, 250, 220] \<noteq> ([] :: real list)" by simp
  have ok: "2 \<le> length [1000, 800, 275, 250, 220 :: real]
      \<and> (\<forall>x \<in> set [1000, 800, 275, 250, 220 :: real]. 0 \<le> x)
      \<and> sorted (rev [1000, 800, 275, 250, 220 :: real])" by simp
  from FormatBGData_no_validation [OF ne] ok
  have "valid_table (FormatBGData [1000, 800, 275, 250, 220])
      \<and> (\<forall>r \<in> set (FormatBGData [1000, 800, 275, 250, 220]).
            0 \<le> Cust_Lost r \<and> 0 \<le> Remaining r
            \<and> Remaining r \<le> [1000, 800, 275, 250, 220] ! 0)
      \<and> sorted (rev (map Remaining (FormatBGData [1000, 800, 275, 250, 220])))"
    by blast
  with ne ok show ?thesis by (simp add: list_all_iff)
qed

theorem FormatBGData_no_validation_counterexample:
  "FormatBGData [10, - 3] = [\<lparr> Remaining = - 3, Cust_Lost = 13, Period = 1, Final_Period = 1 \<rparr>]
   \<and> FormatBGData [5] = []"
  by (simp add: FormatBGData_def fillna_def upt_conv_Cons)

text \<open>
  C1, at the input where the code departs from it. On the table of the raw data
  \<open>[1000, 800, 275, 250, 220]\<close> with \<open>\<gamma> = \<delta> = 1\<close>, \<^verbatim>\<open>NLogL_Alpha\<close> at \<open>\<alpha> = 0\<close> is \<open>+\<infinity>\<close>: there
  \<^verbatim>\<open>DeltaUpd1\<close> and \<^verbatim>\<open>DeltaUpd2\<close> are the same column, the difference of the two Beta
  values is \<open>0\<close>, and its logarithm is \<open>-\<infinity>\<close>. \<^verbatim>\<open>NLogL\<close> is finite on the same table.
  (On every survival table the result at \<open>\<alpha> = 0\<close> is not a finite number: lemma
  \<open>NLogL_Alpha_zero_not_finite\<close>.)
\<close>

theorem NLogL_Alpha_zero_not_base:
  "NLogL_Alpha beta_closed (1, 1, 0) (FormatBGData [1000, 800, 275, 250, 220]) = PInf
   \<and> NLogL beta_closed (1, 1) (FormatBGData [1000, 800, 275, 250, 220])
       = Fin (- (200 * ln (1 / 2) + 525 * ln (1 / 6) + 25 * ln (1 / 12) + 30 * ln (1 / 20)
                 + 220 * ln (1 / 5)))"
  unfolding table_scenario
  by (simp add: NLogL_Alpha_def NLogL_def cumsum_def beta_closed_1 beta_closed_2 np_sub_def
      py_sum_def signed_inf_def)

text \<open>
  C3, at an input where the code departs from it. The code takes the running sum of
  \<open>max(0, 1 + \<alpha> (t - 1))\<close> over the periods \<open>1, \<dots>, t\<close> for the first Beta argument: that is
  \<open>1 + cumA[t]\<close>, not \<open>cumA[t]\<close> (lemma \<open>NLogL_Alpha_rows\<close>). On the table of the raw data
  \<open>[10, 5]\<close> with \<open>\<gamma> = \<delta> = \<alpha> = 1\<close> the code returns \<open>- (5 log (1/6) + 5 log (1/3))\<close>, and
  the formula of the claim is \<open>- (5 log (2/3) + 5 log (1/3))\<close>.
\<close>

theorem NLogL_Alpha_not_extended_formula:
  "NLogL_Alpha beta_closed (1, 1, 1) (FormatBGData [10, 5])
     = Fin (- (5 * ln (1 / 6) + 5 * ln (1 / 3)))
   \<and> extended_formula (\<lambda>a b. val (beta_closed a b)) 1 1 1 (FormatBGData [10, 5])
     = - (5 * ln (2 / 3) + 5 * ln (1 / 3))
   \<and> NLogL_Alpha beta_closed (1, 1, 1) (FormatBGData [10, 5])
     \<noteq> Fin (extended_formula (\<lambda>a b. val (beta_closed a b)) 1 1 1 (FormatBGData [10, 5]))"
proof -
  have t: "FormatBGData [10, 5]
      = [\<lparr> Remaining = 5, Cust_Lost = 5, Period = 1, Final_Period = 1 \<rparr>]"
    by (simp add: FormatBGData_def fillna_def upt_conv_Cons)
  have code: "NLogL_Alpha beta_closed (1, 1, 1) (FormatBGData [10, 5])
      = Fin (- (5 * ln (1 / 6) + 5 * ln (1 / 3)))"
    unfolding t
    by (simp add: NLogL_Alpha_def cumsum_def beta_closed_1 np_sub_def py_sum_def)
  have spec: "extended_formula (\<lambda>a b. val (beta_closed a b)) 1 1 1 (FormatBGData [10, 5])
      = - (5 * ln (2 / 3) + 5 * ln (1 / 3))"
    unfolding t
    by (simp add: extended_formula_def cumA_def cumB_def beta_closed_1 val_def upto_rec1)
  have "ln (1 / 6 :: real) \<noteq> ln (2 / 3)"
    by (simp add: ln_inj_iff)
  with code spec show ?thesis by simp
qed

text \<open>
  C6, as the code has it. The likelihood functions have no guard on \<open>\<gamma>\<close> and \<open>\<delta>\<close> and put
  no penalty in place of the result: for every table and every parameter proposal, also
  one with \<open>\<gamma> \<le> 0\<close> or \<open>\<delta> \<le> 0\<close>, they return the same formula in numpy's arithmetic, which
  does not raise. As soon as the logarithm in the churn term of one row is NaN (its
  argument is negative, as for a negative ratio of Beta values), the result is NaN, which
  is neither \<open>+\<infinity>\<close> nor a finite penalty.
\<close>

theorem NLogL_no_penalty:
  assumes "r \<in> set Data"
  shows "(np_log (np_div (beta (\<gamma> + 1) (\<delta> + of_int (Period r) - 1)) (beta \<gamma> \<delta>)) = NaN
            \<longrightarrow> NLogL beta (\<gamma>, \<delta>) Data = NaN)
       \<and> (valid_table Data
          \<and> np_log (np_div (np_sub (beta \<gamma> (\<delta> + (1 + cumA \<alpha> (Period r))))
                                   (beta \<gamma> (\<delta> + cumB \<alpha> (Period r))))
                           (beta \<gamma> \<delta>)) = NaN
            \<longrightarrow> NLogL_Alpha beta (\<gamma>, \<delta>, \<alpha>) Data = NaN)"
proof (intro conjI impI)
  assume "np_log (np_div (beta (\<gamma> + 1) (\<delta> + of_int (Period r) - 1)) (beta \<gamma> \<delta>)) = NaN"
  then have "NaN \<in> (\<lambda>r. np_add
                (np_mul (Fin (Cust_Lost r))
                   (np_log (np_div (beta (\<gamma> + 1) (\<delta> + of_int (Period r) - 1)) (beta \<gamma> \<delta>))))
                (np_mul (Fin (of_int (Final_Period r)))
                   (np_mul (Fin (Remaining r))
                      (np_log (np_div (beta \<gamma> (\<delta> + of_int (Period r))) (beta \<gamma> \<delta>)))))) ` set Data"
    using assms by (intro image_eqI [where x = r]) simp_all
  then show "NLogL beta (\<gamma>, \<delta>) Data = NaN"
    by (simp add: NLogL_def py_sum_NaN)
next
  assume a: "valid_table Data
      \<and> np_log (np_div (np_sub (beta \<gamma> (\<delta> + (1 + cumA \<alpha> (Period r))))
                               (beta \<gamma> (\<delta> + cumB \<alpha> (Period r))))
                       (beta \<gamma> \<delta>)) = NaN"
  then have "NaN \<in> (\<lambda>r. np_add
         (np_mul (Fin (Cust_Lost r))
            (np_log (np_div (np_sub (beta \<gamma> (\<delta> + (1 + cumA \<alpha> (Period r))))
                                    (beta \<gamma> (\<delta> + cumB \<alpha> (Period r))))
                            (beta \<gamma> \<delta>))))
         (np_mul (np_mul (Fin (of_int (Final_Period r))) (Fin (Remaining r)))
            (np_log (np_div (beta \<gamma> (\<delta> + cumB \<alpha> (Period r))) (beta \<gamma> \<delta>))))) ` set Data"
    using assms by (intro image_eqI [where x = r]) simp_all
  with a show "NLogL_Alpha beta (\<gamma>, \<delta>, \<alpha>) Data = NaN"
    by (simp add: NLogL_Alpha_rows py_sum_NaN)
qed

theorem NLogL_no_penalty_witness:
  "\<lparr> Remaining = 5, Cust_Lost = 5, Period = 1, Final_Period = 1 \<rparr> \<in> set (FormatBGData [10, 5])
   \<and> np_log (np_div (beta_closed (- 1 / 2 + 1) (2 + of_int 1 - 1)) (beta_closed (- 1 / 2) 2)) = NaN
   \<and> valid_table (FormatBGData [10, 5])
   \<and> np_log (np_div (np_sub (beta_closed (- 1 / 2) (2 + (1 + cumA 1 1)))
                            (beta_closed (- 1 / 2) (2 + cumB 1 1)))
                    (beta_closed (- 1 / 2) 2)) = NaN
   \<and> NLogL beta_closed (- 1 / 2, 2) (FormatBGData [10, 5]) = NaN
   \<and> NLogL_Alpha beta_closed (- 1 / 2, 2, 1) (FormatBGData [10, 5]) = NaN"
proof -
  have t: "FormatBGData [10, 5]
      = [\<lparr> Remaining = 5, Cust_Lost = 5, Period = 1, Final_Period = 1 \<rparr>]"
    by (simp add: FormatBGData_def fillna_def upt_conv_Cons)
  have r: "\<lparr> Remaining = 5, Cust_Lost = 5, Period = 1, Final_Period = 1 \<rparr>
      \<in> set (FormatBGData [10, 5])"
    by (simp add: t)
  have v: "valid_table (FormatBGData [10, 5])"
    by (rule valid_table_FormatBGData) simp
  have b: "np_log (np_div (beta_closed (- 1 / 2 + 1) (2 + of_int 1 - 1)) (beta_closed (- 1 / 2) 2))
      = NaN"
    by (simp add: beta_closed_half)
  have e: "np_log (np_div (np_sub (beta_closed (- 1 / 2) (2 + (1 + cumA 1 1)))
                            (beta_closed (- 1 / 2) (2 + cumB 1 1)))
                    (beta_closed (- 1 / 2) 2)) = NaN"
    by (simp add: cumA_def cumB_def upto_rec1 beta_closed_half np_sub_def)
  from NLogL_no_penalty [OF r, of beta_closed "- 1 / 2" 2 1] r v b e
  show ?thesis by simp
qed

theorem NLogL_no_penalty_counterexample:
  "NLogL beta_closed (- 1 / 2, 1) (FormatBGData [1000, 800, 275, 250, 220]) = NaN
   \<and> NLogL_Alpha beta_closed (- 1 / 2, 1, 1) (FormatBGData [10, 5]) = NaN"
proof -
  have t: "FormatBGData [10, 5]
      = [\<lparr> Remaining = 5, Cust_Lost = 5, Period = 1, Final_Period = 1 \<rparr>]"
    by (simp add: FormatBGData_def fillna_def upt_conv_Cons)
  have "NLogL beta_closed (- 1 / 2, 1) (FormatBGData [1000, 800, 275, 250, 220]) = NaN"
    unfolding table_scenario
    by (simp add: NLogL_def py_sum_def beta_closed_half)
  moreover have "NLogL_Alpha beta_closed (- 1 / 2, 1, 1) (FormatBGData [10, 5]) = NaN"
    unfolding t
    by (simp add: NLogL_Alpha_def cumsum_def py_sum_def np_sub_def beta_closed_half)
  ultimately show ?thesis by simp
qed





end
